theory Spec2Isabelle
  imports Main "HOL-Library.Multiset" "HOL-Library.Sublist"
begin

section \<open>Appointment records\<close>

text \<open>
  The dashboard of \<^verbatim>\<open>src/App.tsx\<close> holds a list of appointment records
  (\<^verbatim>\<open>Agendamento\<close>, imported from \<^verbatim>\<open>./types\<close>). The fields are the ones the
  component reads; \<^verbatim>\<open>email\<close> is optional (the code guards it with \<^verbatim>\<open>a.email &&\<close>),
  every other field is a string. The field \<^verbatim>\<open>id\<close> is written \<open>id'\<close> here.

  Line numbers are those of \<^verbatim>\<open>src/App.tsx\<close>. That copy stops inside the markup of the
  dashboard; the create form and the appointment card are cited from
  \<^verbatim>\<open>src/unnamed/part_000\<close>, which holds the whole file.
\<close>

record Agendamento =
  id' :: string
  nome :: string
  email :: "string option"
  telefone :: string
  data :: string
  horario :: string
  status :: string

section \<open>Strings\<close>

text \<open>
  Strings are sequences of code units below 256 (Latin-1). \<^verbatim>\<open>toLowerCase\<close> maps
  \<^verbatim>\<open>A..Z\<close> and the upper-case letters of the Latin-1 supplement (192..222 without the
  multiplication sign 215) to the code unit 32 above, and leaves every other unit alone.
\<close>

definition toLowerCase_char :: "char \<Rightarrow> char" where
  "toLowerCase_char c =
     (let n = (of_char c :: nat)
      in if (65 \<le> n \<and> n \<le> 90) \<or> (192 \<le> n \<and> n \<le> 222 \<and> n \<noteq> 215)
         then char_of (n + 32) else c)"

definition toLowerCase :: "string \<Rightarrow> string" where
  "toLowerCase s = map toLowerCase_char s"

text \<open>\<^verbatim>\<open>hay.includes(needle)\<close>: the needle starts at some position of the haystack.\<close>

fun startsWith :: "string \<Rightarrow> string \<Rightarrow> bool" where
  "startsWith hay [] = True"
| "startsWith [] (c # cs) = False"
| "startsWith (h # hs) (c # cs) = (h = c \<and> startsWith hs cs)"

fun includes_str :: "string \<Rightarrow> string \<Rightarrow> bool" where
  "includes_str [] needle = (needle = [])"
| "includes_str (h # hs) needle = (startsWith (h # hs) needle \<or> includes_str hs needle)"

text \<open>A JavaScript string is falsy exactly when it is empty.\<close>

definition truthy :: "string \<Rightarrow> bool" where
  "truthy s = (s \<noteq> [])"

section \<open>Dates\<close>

text \<open>
  A \<^verbatim>\<open>Date\<close> object holds a time value: milliseconds since the epoch, or NaN (an invalid
  date), written \<open>None\<close>. The functions below are the abstract operations of the
  ECMAScript specification that the methods used by the component are defined by.
\<close>

definition msPerDay :: int where
  "msPerDay = 86400000"

definition Day :: "int \<Rightarrow> int" where
  "Day t = t div msPerDay"

definition TimeWithinDay :: "int \<Rightarrow> int" where
  "TimeWithinDay t = t mod msPerDay"

definition DayFromYear :: "int \<Rightarrow> int" where
  "DayFromYear y =
     365 * (y - 1970) + (y - 1969) div 4 - (y - 1901) div 100 + (y - 1601) div 400"

definition DaysInYear :: "int \<Rightarrow> int" where
  "DaysInYear y =
     (if y mod 4 \<noteq> 0 then 365 else if y mod 100 \<noteq> 0 then 366
      else if y mod 400 \<noteq> 0 then 365 else 366)"

text \<open>
  \<^verbatim>\<open>YearFromTime(t)\<close> is the year \<open>y\<close> with \<open>DayFromYear y \<le> Day t < DayFromYear (y + 1)\<close>.
  It is computed from the number of days since 1 January 1601, the first day of a
  400-year cycle of 146097 days.
\<close>

definition YearFromTime :: "int \<Rightarrow> int" where
  "YearFromTime t =
     (let d = Day t - DayFromYear 1601;
          n400 = d div 146097;
          r = d mod 146097;
          n100 = min (r div 36524) 3;
          r1 = r - n100 * 36524;
          n4 = r1 div 1461;
          r2 = r1 mod 1461;
          n1 = min (r2 div 365) 3
      in 1601 + 400 * n400 + 100 * n100 + 4 * n4 + n1)"

definition InLeapYear :: "int \<Rightarrow> int" where
  "InLeapYear t = (if DaysInYear (YearFromTime t) = 366 then 1 else 0)"

definition DayWithinYear :: "int \<Rightarrow> int" where
  "DayWithinYear t = Day t - DayFromYear (YearFromTime t)"

text \<open>The day within the year on which month \<open>m\<close> (0 = January) starts; \<open>l\<close> is 1 in a leap year.\<close>

definition DayFromMonth :: "int \<Rightarrow> int \<Rightarrow> int" where
  "DayFromMonth m l =
     (if m = 0 then 0 else if m = 1 then 31 else if m = 2 then 59 + l
      else if m = 3 then 90 + l else if m = 4 then 120 + l else if m = 5 then 151 + l
      else if m = 6 then 181 + l else if m = 7 then 212 + l else if m = 8 then 243 + l
      else if m = 9 then 273 + l else if m = 10 then 304 + l else 334 + l)"

definition MonthFromTime :: "int \<Rightarrow> int" where
  "MonthFromTime t =
     (let d = DayWithinYear t; l = InLeapYear t
      in if d < 31 then 0 else if d < 59 + l then 1 else if d < 90 + l then 2
         else if d < 120 + l then 3 else if d < 151 + l then 4 else if d < 181 + l then 5
         else if d < 212 + l then 6 else if d < 243 + l then 7 else if d < 273 + l then 8
         else if d < 304 + l then 9 else if d < 334 + l then 10 else 11)"

definition DateFromTime :: "int \<Rightarrow> int" where
  "DateFromTime t = DayWithinYear t - DayFromMonth (MonthFromTime t) (InLeapYear t) + 1"

definition WeekDay :: "int \<Rightarrow> int" where
  "WeekDay t = (Day t + 4) mod 7"

definition MakeTime :: "int \<Rightarrow> int \<Rightarrow> int \<Rightarrow> int \<Rightarrow> int" where
  "MakeTime h m s ms = h * 3600000 + m * 60000 + s * 1000 + ms"

text \<open>
  \<^verbatim>\<open>MakeDay(year, month, date)\<close>: the day number of the first day of the month, plus
  \<open>date - 1\<close>; a month outside 0..11 carries into the year.
\<close>

definition MakeDay :: "int \<Rightarrow> int \<Rightarrow> int \<Rightarrow> int" where
  "MakeDay year month date =
     (let ym = year + month div 12; mn = month mod 12
      in DayFromYear ym + DayFromMonth mn (if DaysInYear ym = 366 then 1 else 0) + date - 1)"

definition MakeDate :: "int \<Rightarrow> int \<Rightarrow> int" where
  "MakeDate day time = day * msPerDay + time"

definition TimeClip :: "int \<Rightarrow> int option" where
  "TimeClip t = (if \<bar>t\<bar> \<le> 8640000000000000 then Some t else None)"

text \<open>
  The host environment: the offset of local time from UTC in milliseconds (taken as
  constant: no daylight-saving change), and the parser behind \<^verbatim>\<open>new Date(string)\<close>,
  which yields a time value or NaN. The parser is implementation-defined outside the
  ISO format, so the theorems below hold for every parser.
\<close>

record js_env =
  LocalTZA :: int
  DateParse :: "string \<Rightarrow> int option"

definition LocalTime :: "js_env \<Rightarrow> int \<Rightarrow> int" where
  "LocalTime E t = t + LocalTZA E"

definition UTC :: "js_env \<Rightarrow> int \<Rightarrow> int" where
  "UTC E t = t - LocalTZA E"

subsection \<open>Methods of \<^verbatim>\<open>Date\<close>\<close>

definition getTime :: "int option \<Rightarrow> int option" where
  "getTime d = d"

definition getDay :: "js_env \<Rightarrow> int option \<Rightarrow> int option" where
  "getDay E d = map_option (\<lambda>tv. WeekDay (LocalTime E tv)) d"

definition getDate :: "js_env \<Rightarrow> int option \<Rightarrow> int option" where
  "getDate E d = map_option (\<lambda>tv. DateFromTime (LocalTime E tv)) d"

definition setHours :: "js_env \<Rightarrow> int \<Rightarrow> int \<Rightarrow> int \<Rightarrow> int \<Rightarrow> int option \<Rightarrow> int option" where
  "setHours E h m s ms d =
     (case d of
        None \<Rightarrow> None
      | Some tv \<Rightarrow>
          (let t = LocalTime E tv
           in TimeClip (UTC E (MakeDate (Day t) (MakeTime h m s ms)))))"

text \<open>\<^verbatim>\<open>d.setDate(dt)\<close>; the argument is a number, NaN when it was computed from NaN.\<close>

definition setDate :: "js_env \<Rightarrow> int option \<Rightarrow> int option \<Rightarrow> int option" where
  "setDate E dt d =
     (case d of
        None \<Rightarrow> None
      | Some tv \<Rightarrow>
          (case dt of
             None \<Rightarrow> None
           | Some n \<Rightarrow>
               (let t = LocalTime E tv;
                    newDate = MakeDate (MakeDay (YearFromTime t) (MonthFromTime t) n)
                                (TimeWithinDay t)
                in TimeClip (UTC E newDate))))"

text \<open>Relational comparison of two dates compares the time values and is false on NaN.\<close>

definition date_ge :: "int option \<Rightarrow> int option \<Rightarrow> bool" where
  "date_ge a b = (case a of None \<Rightarrow> False | Some x \<Rightarrow> (case b of None \<Rightarrow> False | Some y \<Rightarrow> y \<le> x))"

definition date_le :: "int option \<Rightarrow> int option \<Rightarrow> bool" where
  "date_le a b = (case a of None \<Rightarrow> False | Some x \<Rightarrow> (case b of None \<Rightarrow> False | Some y \<Rightarrow> x \<le> y))"

text \<open>Subtraction of numbers, NaN when an operand is NaN.\<close>

definition num_minus :: "int option \<Rightarrow> int option \<Rightarrow> int option" where
  "num_minus a b = (case a of None \<Rightarrow> None | Some x \<Rightarrow> (case b of None \<Rightarrow> None | Some y \<Rightarrow> Some (x - y)))"

text \<open>The composed date-time of a record: \<^verbatim>\<open>new Date(`${a.data}T${a.horario}`)\<close>.\<close>

definition composed :: "js_env \<Rightarrow> Agendamento \<Rightarrow> int option" where
  "composed E a = DateParse E (data a @ ''T'' @ horario a)"

subsection \<open>A parser for the ISO form\<close>

text \<open>
  A concrete \<^verbatim>\<open>DateParse\<close> for the examples. It reads the form \<^verbatim>\<open>YYYY-MM-DDTHH:mm\<close>,
  which is what the date and time inputs of the create form produce; without an offset
  the string denotes local time. Month 1..12, day 1..31, hour 0..23 and minute 0..59 are
  accepted; this parser yields NaN for everything else.
\<close>

definition digit_val :: "char \<Rightarrow> int option" where
  "digit_val c =
     (let n = (of_char c :: nat)
      in if 48 \<le> n \<and> n \<le> 57 then Some (int n - 48) else None)"

fun digits_val :: "string \<Rightarrow> int \<Rightarrow> int option" where
  "digits_val [] acc = Some acc"
| "digits_val (c # cs) acc =
     (case digit_val c of None \<Rightarrow> None | Some v \<Rightarrow> digits_val cs (10 * acc + v))"

definition parseISO :: "int \<Rightarrow> string \<Rightarrow> int option" where
  "parseISO tza s =
     (if length s = 16 \<and> s ! 4 = CHR ''-'' \<and> s ! 7 = CHR ''-'' \<and> s ! 10 = CHR ''T''
         \<and> s ! 13 = CHR '':''
      then
        (case digits_val (take 4 s) 0 of None \<Rightarrow> None | Some y \<Rightarrow>
        (case digits_val (take 2 (drop 5 s)) 0 of None \<Rightarrow> None | Some mo \<Rightarrow>
        (case digits_val (take 2 (drop 8 s)) 0 of None \<Rightarrow> None | Some d \<Rightarrow>
        (case digits_val (take 2 (drop 11 s)) 0 of None \<Rightarrow> None | Some h \<Rightarrow>
        (case digits_val (take 2 (drop 14 s)) 0 of None \<Rightarrow> None | Some mi \<Rightarrow>
           if 1 \<le> mo \<and> mo \<le> 12 \<and> 1 \<le> d \<and> d \<le> 31 \<and> h \<le> 23 \<and> mi \<le> 59
           then TimeClip (MakeDate (MakeDay y (mo - 1) d) (MakeTime h mi 0 0) - tza)
           else None)))))
      else None)"

definition iso_env :: "int \<Rightarrow> js_env" where
  "iso_env tza = \<lparr>LocalTZA = tza, DateParse = parseISO tza\<rparr>"

section \<open>Arrays\<close>

text \<open>
  \<^verbatim>\<open>Array.prototype.filter\<close> calls the callback on each element in order and collects
  the elements it accepts in a new array. The callback reads the clock, so it takes the
  number of clock readings made so far and returns, with its verdict, the number after
  the call.
\<close>

fun filter_st :: "('a \<Rightarrow> nat \<Rightarrow> bool \<times> nat) \<Rightarrow> 'a list \<Rightarrow> nat \<Rightarrow> 'a list" where
  "filter_st f [] n = []"
| "filter_st f (x # xs) n =
     (let r = f x n
      in if fst r then x # filter_st f xs (snd r) else filter_st f xs (snd r))"

text \<open>
  \<^verbatim>\<open>Array.prototype.sort\<close> is stable. It calls the comparison function on pairs of
  elements and treats a result of NaN as 0. For a comparison function that is a
  consistent order the sorted array is unique, and stable insertion computes it. The
  dashboard sorts only records whose dates are valid, on which its comparison function is
  the order of the time values.
\<close>

definition compare_le :: "('a \<Rightarrow> 'a \<Rightarrow> int option) \<Rightarrow> 'a \<Rightarrow> 'a \<Rightarrow> bool" where
  "compare_le cmp x y = (case cmp x y of None \<Rightarrow> True | Some v \<Rightarrow> v \<le> 0)"

fun insert_by :: "('a \<Rightarrow> 'a \<Rightarrow> int option) \<Rightarrow> 'a \<Rightarrow> 'a list \<Rightarrow> 'a list" where
  "insert_by cmp x [] = [x]"
| "insert_by cmp x (y # ys) =
     (if compare_le cmp x y then x # y # ys else y # insert_by cmp x ys)"

definition sort_by :: "('a \<Rightarrow> 'a \<Rightarrow> int option) \<Rightarrow> 'a list \<Rightarrow> 'a list" where
  "sort_by cmp xs = foldr (insert_by cmp) xs []"

text \<open>
  Arrays are objects: a variable holds a reference into a heap of arrays, and a
  reference that a variable holds is always allocated. \<^verbatim>\<open>filter\<close> allocates its result;
  \<^verbatim>\<open>sort\<close> rewrites the array it is called on and returns the same reference.
\<close>

definition array_filter ::
  "'a list list \<Rightarrow> nat \<Rightarrow> ('a \<Rightarrow> nat \<Rightarrow> bool \<times> nat) \<Rightarrow> 'a list list \<times> nat" where
  "array_filter h r f = (h @ [filter_st f (h ! r) 0], length h)"

definition array_sort ::
  "'a list list \<Rightarrow> nat \<Rightarrow> ('a \<Rightarrow> 'a \<Rightarrow> int option) \<Rightarrow> 'a list list \<times> nat" where
  "array_sort h r cmp = (h[r := sort_by cmp (h ! r)], r)"

section \<open>The dashboard component\<close>

text \<open>What the handlers do to the outside world, in the order they do it.\<close>

datatype toast_type = Success | Error | Info | Warning

datatype new_status = Confirmado | Cancelado

datatype message =
    SessaoExpirada
  | ErroAoCarregar
  | PreenchaCampos
  | AgendadoComSucesso
  | ErroAoAgendar
  | ErroDeConexao
  | ServerMsg string
  | AgendamentoStatus new_status
  | ErroAoStatus new_status

datatype effect =
    PreventDefault
  | FetchAgendamentos string
  | PostAgendar string "(string \<times> string) list"
  | PostStatus string string new_status string
  | GetUser
  | SignOut
  | ShowToast message toast_type
  | ConsoleError
  | FormReset
  | OnUpdate

text \<open>
  How an awaited promise settles. A response carries its status and the outcome of
  reading its body as JSON; \<^verbatim>\<open>res.ok\<close> holds for the statuses 200 to 299.
\<close>

datatype 'a outcome = Resolved 'a | Rejected

datatype 'b response = Response (res_status: int) (res_json: "'b outcome")

definition ok :: "'b response \<Rightarrow> bool" where
  "ok res = (200 \<le> res_status res \<and> res_status res \<le> 299)"

text \<open>
  The body of the list endpoint: \<^verbatim>\<open>null\<close>, or an object whose field \<^verbatim>\<open>agendamentos\<close> is
  a list or is missing. The body of the other endpoints: \<^verbatim>\<open>null\<close>, or an object whose
  field \<^verbatim>\<open>msg\<close> is a string or is missing.
\<close>

datatype list_body = ListNull | ListObject "Agendamento list option"

datatype msg_body = MsgNull | MsgObject "string option"

text \<open>
  The state of \<^verbatim>\<open>Dashboard\<close>: the \<^verbatim>\<open>useState\<close> variables (the two lists are references
  into the heap), the heap, and the log of effects. The token comes from the
  authentication context and is \<^verbatim>\<open>null\<close> or a string; the handlers take it as an argument.
\<close>

record Dashboard =
  heap :: "Agendamento list list"
  agendamentos :: nat
  filteredAgendamentos :: nat
  loadingAgendamentos :: bool
  diaSelecionado :: int
  searchInput :: string
  statusFilter :: string
  log :: "effect list"

subsection \<open>The filter and sort effect\<close>

text \<open>
  The callback of \<^verbatim>\<open>agendamentos.filter\<close> (lines 335 to 360); \<open>matchesSearch\<close> and
  \<open>matchesStatus\<close> are its local constants of these names. \<open>clk k\<close> is the time value
  returned by the \<open>k\<close>-th \<^verbatim>\<open>new Date()\<close> of the run; \<open>n\<close> counts the readings made before
  this call. When no branch assigns it, \<^verbatim>\<open>matchesDate\<close> keeps its initial value
  \<^verbatim>\<open>false\<close>.
\<close>

definition matchesSearch :: "string \<Rightarrow> Agendamento \<Rightarrow> bool" where
  "matchesSearch lowercasedFilter a =
     (includes_str (toLowerCase (nome a)) lowercasedFilter \<or>
      (case email a of
         None \<Rightarrow> False
       | Some e \<Rightarrow> truthy e \<and> includes_str (toLowerCase e) lowercasedFilter))"

definition matchesStatus :: "Dashboard \<Rightarrow> Agendamento \<Rightarrow> bool" where
  "matchesStatus s a = (\<not> truthy (statusFilter s) \<or> status a = statusFilter s)"

definition filterCallback ::
  "js_env \<Rightarrow> (nat \<Rightarrow> int) \<Rightarrow> Dashboard \<Rightarrow> string \<Rightarrow> Agendamento \<Rightarrow> nat \<Rightarrow> bool \<times> nat" where
  "filterCallback E clk s lowercasedFilter a n =
     (let dataAgendamento = composed E a;
          hoje = setHours E 0 0 0 0 (Some (clk n))
      in if 0 \<le> diaSelecionado s \<and> diaSelecionado s \<le> 6 then
           (matchesSearch lowercasedFilter a \<and> matchesStatus s a \<and>
              (getDay E dataAgendamento = Some (diaSelecionado s) \<and> date_ge dataAgendamento hoje),
            n + 1)
         else
           (let hojeFim = setHours E 23 59 59 999 (Some (clk (n + 1)))
            in if diaSelecionado s = - 1 then
                 (let umaSemanaAtras0 = Some (clk (n + 2));
                      umaSemanaAtras1 =
                        setDate E (num_minus (getDate E umaSemanaAtras0) (Some 7)) umaSemanaAtras0;
                      umaSemanaAtras = setHours E 0 0 0 0 umaSemanaAtras1
                  in (matchesSearch lowercasedFilter a \<and> matchesStatus s a \<and>
                        (date_ge dataAgendamento umaSemanaAtras \<and> date_le dataAgendamento hojeFim),
                      n + 3))
               else (False, n + 2)))"

text \<open>The comparison function of the sort (line 360).\<close>

definition compareFn :: "js_env \<Rightarrow> Agendamento \<Rightarrow> Agendamento \<Rightarrow> int option" where
  "compareFn E a b = num_minus (getTime (composed E a)) (getTime (composed E b))"

text \<open>The effect of lines 333 to 363, run when a list or a filter input has changed.\<close>

definition filterEffect :: "js_env \<Rightarrow> (nat \<Rightarrow> int) \<Rightarrow> Dashboard \<Rightarrow> Dashboard" where
  "filterEffect E clk s =
     (let lowercasedFilter = toLowerCase (searchInput s);
          (h1, r1) =
            array_filter (heap s) (agendamentos s) (filterCallback E clk s lowercasedFilter);
          (h2, filtered) = array_sort h1 r1 (compareFn E)
      in s\<lparr>heap := h2, filteredAgendamentos := filtered\<rparr>)"

text \<open>The list a reference of the state denotes.\<close>

definition deref :: "Dashboard \<Rightarrow> nat \<Rightarrow> Agendamento list" where
  "deref s r = heap s ! r"

text \<open>The list on display after the effect has run: the output of the filter and sort.\<close>

definition displayed :: "js_env \<Rightarrow> (nat \<Rightarrow> int) \<Rightarrow> Dashboard \<Rightarrow> Agendamento list" where
  "displayed E clk s = deref (filterEffect E clk s) (filteredAgendamentos (filterEffect E clk s))"

text \<open>
  The array that \<^verbatim>\<open>filter\<close> returns, before it is sorted.
\<close>

definition kept :: "js_env \<Rightarrow> (nat \<Rightarrow> int) \<Rightarrow> Dashboard \<Rightarrow> Agendamento list" where
  "kept E clk s =
     filter_st (filterCallback E clk s (toLowerCase (searchInput s))) (deref s (agendamentos s)) 0"

subsection \<open>Loading the list\<close>

definition emit :: "effect \<Rightarrow> Dashboard \<Rightarrow> Dashboard" where
  "emit e s = s\<lparr>log := log s @ [e]\<rparr>"

text \<open>\<^verbatim>\<open>setAgendamentos(xs)\<close> with a list that came from outside: a new array of the heap.\<close>

definition setAgendamentos :: "Agendamento list \<Rightarrow> Dashboard \<Rightarrow> Dashboard" where
  "setAgendamentos xs s = s\<lparr>heap := heap s @ [xs], agendamentos := length (heap s)\<rparr>"

text \<open>\<^verbatim>\<open>!token\<close>: the token is \<^verbatim>\<open>null\<close> or the empty string.\<close>

definition no_token :: "string option \<Rightarrow> bool" where
  "no_token token = (case token of None \<Rightarrow> True | Some tk \<Rightarrow> \<not> truthy tk)"

definition token_text :: "string option \<Rightarrow> string" where
  "token_text token = (case token of None \<Rightarrow> ''null'' | Some tk \<Rightarrow> tk)"

text \<open>
  \<^verbatim>\<open>fetchAgendamentos\<close> (lines 307 to 327), given how the request and the sign-out settle.
  The body of the \<^verbatim>\<open>try\<close> ends in \<open>Inl\<close> when it throws and in \<open>Inr\<close> when it completes.
\<close>

definition fetchAgendamentos_try ::
  "list_body response outcome \<Rightarrow> unit outcome \<Rightarrow> Dashboard \<Rightarrow> Dashboard + Dashboard" where
  "fetchAgendamentos_try fetched signedOut s =
     (case fetched of
        Rejected \<Rightarrow> Inl s
      | Resolved res \<Rightarrow>
          if ok res then
            (case res_json res of
               Rejected \<Rightarrow> Inl s
             | Resolved ListNull \<Rightarrow> Inl s
             | Resolved (ListObject l) \<Rightarrow>
                 Inr (setAgendamentos (case l of None \<Rightarrow> [] | Some xs \<Rightarrow> xs) s))
          else if res_status res = 401 then
            (let s1 = emit SignOut s
             in case signedOut of
                  Rejected \<Rightarrow> Inl s1
                | Resolved u \<Rightarrow> Inr (emit (ShowToast SessaoExpirada Error) s1))
          else Inr s)"

definition fetchAgendamentos ::
  "string option \<Rightarrow> list_body response outcome \<Rightarrow> unit outcome \<Rightarrow> Dashboard \<Rightarrow> Dashboard" where
  "fetchAgendamentos token fetched signedOut s =
     (if no_token token then s
      else
        (let s1 = s\<lparr>loadingAgendamentos := True\<rparr>;
             s2 = emit (FetchAgendamentos (token_text token)) s1;
             s3 = (case fetchAgendamentos_try fetched signedOut s2 of
                     Inr done \<Rightarrow> done
                   | Inl thrown \<Rightarrow> emit (ShowToast ErroAoCarregar Error) (emit ConsoleError thrown))
         in s3\<lparr>loadingAgendamentos := False\<rparr>))"

subsection \<open>Creating an appointment\<close>

text \<open>
  \<^verbatim>\<open>Object.fromEntries(formData.entries())\<close>: the last entry of a name wins. A field is
  falsy when it is missing or empty.
\<close>

definition fromEntries :: "(string \<times> string) list \<Rightarrow> string \<Rightarrow> string option" where
  "fromEntries entries = map_of (rev entries)"

definition falsy_field :: "(string \<times> string) list \<Rightarrow> string \<Rightarrow> bool" where
  "falsy_field entries k = (case fromEntries entries k of None \<Rightarrow> True | Some v \<Rightarrow> \<not> truthy v)"

text \<open>
  \<^verbatim>\<open>handleAgendamentoSubmit\<close> (lines 366 to 395) up to its first \<^verbatim>\<open>await\<close>: the second
  component tells whether the request was issued and the handler is waiting for it.
\<close>

definition handleAgendamentoSubmit_begin ::
  "string option \<Rightarrow> (string \<times> string) list \<Rightarrow> Dashboard \<Rightarrow> Dashboard \<times> bool" where
  "handleAgendamentoSubmit_begin token entries s =
     (let s1 = emit PreventDefault s
      in if no_token token then (s1, False)
         else if falsy_field entries ''nome'' \<or> falsy_field entries ''telefone'' \<or>
                 falsy_field entries ''data'' \<or> falsy_field entries ''horario''
         then (emit (ShowToast PreenchaCampos Warning) s1, False)
         else (emit (PostAgendar (token_text token) entries) s1, True))"

text \<open>
  The rest of the handler, once the request has settled. \<open>reset\<close> is how
  \<^verbatim>\<open>e.currentTarget.reset()\<close> ends; the refresh of the list runs with its own outcomes.
\<close>

definition handleAgendamentoSubmit_try ::
  "string option \<Rightarrow> msg_body response outcome \<Rightarrow> unit outcome \<Rightarrow>
   list_body response outcome \<Rightarrow> unit outcome \<Rightarrow> Dashboard \<Rightarrow> Dashboard + Dashboard" where
  "handleAgendamentoSubmit_try token posted reset fetched signedOut s =
     (case posted of
        Rejected \<Rightarrow> Inl s
      | Resolved response \<Rightarrow>
          (case res_json response of
             Rejected \<Rightarrow> Inl s
           | Resolved result \<Rightarrow>
               if ok response then
                 (let s1 = emit (ShowToast AgendadoComSucesso Success) s
                  in case reset of
                       Rejected \<Rightarrow> Inl s1
                     | Resolved u \<Rightarrow>
                         Inr (fetchAgendamentos token fetched signedOut (emit FormReset s1)))
               else
                 (case result of
                    MsgNull \<Rightarrow> Inl s
                  | MsgObject m \<Rightarrow>
                      Inr (emit (ShowToast
                                  (case m of
                                     None \<Rightarrow> ErroAoAgendar
                                   | Some t \<Rightarrow> if truthy t then ServerMsg t else ErroAoAgendar)
                                  Error) s))))"

definition handleAgendamentoSubmit_resume ::
  "string option \<Rightarrow> msg_body response outcome \<Rightarrow> unit outcome \<Rightarrow>
   list_body response outcome \<Rightarrow> unit outcome \<Rightarrow> Dashboard \<Rightarrow> Dashboard" where
  "handleAgendamentoSubmit_resume token posted reset fetched signedOut s =
     (case handleAgendamentoSubmit_try token posted reset fetched signedOut s of
        Inr done \<Rightarrow> done
      | Inl thrown \<Rightarrow> emit (ShowToast ErroDeConexao Error) thrown)"

definition handleAgendamentoSubmit ::
  "string option \<Rightarrow> (string \<times> string) list \<Rightarrow> msg_body response outcome \<Rightarrow> unit outcome \<Rightarrow>
   list_body response outcome \<Rightarrow> unit outcome \<Rightarrow> Dashboard \<Rightarrow> Dashboard" where
  "handleAgendamentoSubmit token entries posted reset fetched signedOut s =
     (let (s1, waiting) = handleAgendamentoSubmit_begin token entries s
      in if waiting then handleAgendamentoSubmit_resume token posted reset fetched signedOut s1
         else s1)"

section \<open>Controls and requests in flight\<close>

text \<open>
  \<^verbatim>\<open>Button\<close> (lines 87 to 115) renders \<^verbatim>\<open>disabled={isLoading}\<close>, and \<^verbatim>\<open>isLoading\<close> is
  \<^verbatim>\<open>false\<close> when the caller passes none. No caller in the file passes \<^verbatim>\<open>disabled\<close>
  itself. A disabled button dispatches no click and submits no form.
\<close>

definition Button_disabled :: "bool option \<Rightarrow> bool" where
  "Button_disabled isLoading = (case isLoading of None \<Rightarrow> False | Some b \<Rightarrow> b)"

subsection \<open>The create form\<close>

text \<open>
  The submit button of the create form (line 435 of \<^verbatim>\<open>part_000\<close>) is
  \<^verbatim>\<open><Button type="submit" variant="primary" className=... icon={Plus} size="lg">\<close>:
  it passes no \<^verbatim>\<open>isLoading\<close>. The form is the dashboard state together with the number
  of create requests that have been issued and have not settled.
\<close>

datatype create_event =
    Submit "(string \<times> string) list"
  | PostSettles "msg_body response outcome" "unit outcome" "list_body response outcome" "unit outcome"

fun create_step :: "string option \<Rightarrow> Dashboard \<times> nat \<Rightarrow> create_event \<Rightarrow> Dashboard \<times> nat" where
  "create_step token (s, inflight) (Submit entries) =
     (if Button_disabled None then (s, inflight)
      else
        (let (s1, waiting) = handleAgendamentoSubmit_begin token entries s
         in (s1, if waiting then inflight + 1 else inflight)))"
| "create_step token (s, inflight) (PostSettles posted reset fetched signedOut) =
     (if inflight = 0 then (s, inflight)
      else (handleAgendamentoSubmit_resume token posted reset fetched signedOut s, inflight - 1))"

definition create_run :: "string option \<Rightarrow> Dashboard \<times> nat \<Rightarrow> create_event list \<Rightarrow> Dashboard \<times> nat" where
  "create_run token st evs = foldl (create_step token) st evs"

definition is_create_request :: "effect \<Rightarrow> bool" where
  "is_create_request e = (case e of PostAgendar tk body \<Rightarrow> True | _ \<Rightarrow> False)"

subsection \<open>The appointment card\<close>

text \<open>
  \<^verbatim>\<open>AgendamentoCard\<close> (lines 528 to 592 of \<^verbatim>\<open>part_000\<close>) keeps \<^verbatim>\<open>isSubmitting\<close> and passes it as
  \<^verbatim>\<open>isLoading\<close> to its confirm and cancel buttons. \<open>running\<close> holds the calls of
  \<^verbatim>\<open>handleStatusChange\<close> that are waiting at an \<^verbatim>\<open>await\<close>: for the user (with the token
  the call captured), or for the response to the request it issued.
\<close>

datatype card_phase = AwaitingUser new_status string | AwaitingResponse new_status

record Card =
  isSubmitting :: bool
  running :: "card_phase list"
  card_log :: "effect list"

datatype card_event =
    Click new_status
  | GetUserSettles nat "string option outcome"
  | FetchSettles nat "msg_body response outcome"

definition card_emit :: "effect \<Rightarrow> Card \<Rightarrow> Card" where
  "card_emit e c = c\<lparr>card_log := card_log c @ [e]\<rparr>"

text \<open>The \<^verbatim>\<open>finally\<close> block, which ends call \<open>i\<close>.\<close>

definition card_finally :: "nat \<Rightarrow> Card \<Rightarrow> Card" where
  "card_finally i c =
     c\<lparr>isSubmitting := False, running := take i (running c) @ drop (Suc i) (running c)\<rparr>"

definition handleStatusChange_begin :: "string option \<Rightarrow> new_status \<Rightarrow> Card \<Rightarrow> Card" where
  "handleStatusChange_begin token newStatus c =
     (if no_token token then c
      else
        (let c1 = c\<lparr>isSubmitting := True\<rparr>;
             c2 = card_emit GetUser c1
         in c2\<lparr>running := running c2 @ [AwaitingUser newStatus (token_text token)]\<rparr>))"

definition handleStatusChange_user ::
  "string \<Rightarrow> nat \<Rightarrow> new_status \<Rightarrow> string \<Rightarrow> string option outcome \<Rightarrow> Card \<Rightarrow> Card" where
  "handleStatusChange_user ident i newStatus tk got c =
     (case got of
        Resolved (Some user_email) \<Rightarrow>
          (let c1 = card_emit (PostStatus tk user_email newStatus ident) c
           in c1\<lparr>running := (running c1)[i := AwaitingResponse newStatus]\<rparr>)
      | Resolved None \<Rightarrow> card_finally i (card_emit (ShowToast (ErroAoStatus newStatus) Error) c)
      | Rejected \<Rightarrow> card_finally i (card_emit (ShowToast (ErroAoStatus newStatus) Error) c))"

definition handleStatusChange_try :: "new_status \<Rightarrow> msg_body response outcome \<Rightarrow> Card \<Rightarrow> Card" where
  "handleStatusChange_try newStatus fetched c =
     (case fetched of
        Rejected \<Rightarrow> card_emit (ShowToast (ErroAoStatus newStatus) Error) c
      | Resolved res \<Rightarrow>
          if ok res then
            card_emit OnUpdate (card_emit (ShowToast (AgendamentoStatus newStatus) Success) c)
          else
            (case res_json res of
               Resolved (MsgObject (Some t)) \<Rightarrow>
                 card_emit (ShowToast (if truthy t then ServerMsg t else ErroAoStatus newStatus)
                              Error) c
             | _ \<Rightarrow> card_emit (ShowToast (ErroAoStatus newStatus) Error) c))"

definition handleStatusChange_response ::
  "nat \<Rightarrow> new_status \<Rightarrow> msg_body response outcome \<Rightarrow> Card \<Rightarrow> Card" where
  "handleStatusChange_response i newStatus fetched c =
     card_finally i (handleStatusChange_try newStatus fetched c)"

fun card_step :: "string option \<Rightarrow> string \<Rightarrow> Card \<Rightarrow> card_event \<Rightarrow> Card" where
  "card_step token ident c (Click newStatus) =
     (if Button_disabled (Some (isSubmitting c)) then c
      else handleStatusChange_begin token newStatus c)"
| "card_step token ident c (GetUserSettles i got) =
     (if i < length (running c) then
        (case running c ! i of
           AwaitingUser newStatus tk \<Rightarrow> handleStatusChange_user ident i newStatus tk got c
         | AwaitingResponse newStatus \<Rightarrow> c)
      else c)"
| "card_step token ident c (FetchSettles i fetched) =
     (if i < length (running c) then
        (case running c ! i of
           AwaitingUser newStatus tk \<Rightarrow> c
         | AwaitingResponse newStatus \<Rightarrow> handleStatusChange_response i newStatus fetched c)
      else c)"

definition card_init :: Card where
  "card_init = \<lparr>isSubmitting = False, running = [], card_log = []\<rparr>"

definition card_run :: "string option \<Rightarrow> string \<Rightarrow> card_event list \<Rightarrow> Card" where
  "card_run token ident evs = foldl (card_step token ident) card_init evs"

text \<open>
  The card keeps at most one call of \<^verbatim>\<open>handleStatusChange\<close> waiting, and its buttons are
  disabled while one waits.
\<close>

definition card_inv :: "Card \<Rightarrow> bool" where
  "card_inv c = (length (running c) \<le> 1 \<and> (running c = [] \<or> isSubmitting c))"

section \<open>Notions of the specification\<close>

text \<open>
  \<open>q\<close> is a case-insensitive substring of \<open>t\<close>: lowered, \<open>q\<close> occurs somewhere in \<open>t\<close>.
\<close>

definition ci_substring :: "string \<Rightarrow> string \<Rightarrow> bool" where
  "ci_substring q t = (\<exists>pre suf. toLowerCase t = pre @ toLowerCase q @ suf)"

text \<open>
  The instants at which local day \<open>D\<close> (days since the epoch, in local time) starts,
  00:00:00.000, and ends, 23:59:59.999; and the time values a \<^verbatim>\<open>Date\<close> can hold.
\<close>

definition startOfDay :: "js_env \<Rightarrow> int \<Rightarrow> int" where
  "startOfDay E D = D * msPerDay - LocalTZA E"

definition endOfDay :: "js_env \<Rightarrow> int \<Rightarrow> int" where
  "endOfDay E D = D * msPerDay + 86399999 - LocalTZA E"

definition valid_time :: "int \<Rightarrow> bool" where
  "valid_time t = (\<bar>t\<bar> \<le> 8640000000000000)"

text \<open>
  Every clock reading of a run over \<open>n\<close> records falls on local day \<open>D\<close>. The callback
  reads the clock at most three times for a record.
\<close>

definition clock_on_day :: "js_env \<Rightarrow> (nat \<Rightarrow> int) \<Rightarrow> nat \<Rightarrow> int \<Rightarrow> bool" where
  "clock_on_day E clk n D = (\<forall>k < 3 * n. Day (LocalTime E (clk k)) = D)"

text \<open>The effects a handler added to the log.\<close>

definition new_effects :: "Dashboard \<Rightarrow> Dashboard \<Rightarrow> effect list" where
  "new_effects s s' = drop (length (log s)) (log s')"

definition is_list_request :: "effect \<Rightarrow> bool" where
  "is_list_request e = (case e of FetchAgendamentos tk \<Rightarrow> True | _ \<Rightarrow> False)"

definition is_error_toast :: "effect \<Rightarrow> bool" where
  "is_error_toast e = (case e of ShowToast m Error \<Rightarrow> True | _ \<Rightarrow> False)"

definition is_warning_toast :: "effect \<Rightarrow> bool" where
  "is_warning_toast e = (case e of ShowToast m Warning \<Rightarrow> True | _ \<Rightarrow> False)"

section \<open>Example data\<close>

text \<open>
  The two records of the specification's example, two Sundays (5 and 19 January 2025),
  and a record whose date does not parse; a dashboard that holds a given list; a clock
  that advances by one millisecond with each reading; a filled create form, and one
  with an empty name.
\<close>

definition exemplo_ana :: Agendamento where
  "exemplo_ana = \<lparr>id' = ''1'', nome = ''Ana'', email = None, telefone = ''(11) 90000-0001'',
     data = ''2025-01-10'', horario = ''09:00'', status = ''pendente''\<rparr>"

definition exemplo_bea :: Agendamento where
  "exemplo_bea = \<lparr>id' = ''2'', nome = ''Bea'', email = Some ''BEA@example.org'',
     telefone = ''(11) 90000-0002'', data = ''2025-01-10'', horario = ''08:00'',
     status = ''confirmado''\<rparr>"

definition domingo_passado :: Agendamento where
  "domingo_passado = \<lparr>id' = ''3'', nome = ''Caio'', email = None, telefone = ''(11) 90000-0003'',
     data = ''2025-01-05'', horario = ''10:00'', status = ''pendente''\<rparr>"

definition domingo_futuro :: Agendamento where
  "domingo_futuro = \<lparr>id' = ''4'', nome = ''Davi'', email = None, telefone = ''(11) 90000-0004'',
     data = ''2025-01-19'', horario = ''10:00'', status = ''pendente''\<rparr>"

definition sem_data :: Agendamento where
  "sem_data = \<lparr>id' = ''5'', nome = ''Eva'', email = None, telefone = ''(11) 90000-0005'',
     data = ''amanha'', horario = ''cedo'', status = ''pendente''\<rparr>"

definition exemplo_dashboard :: "Agendamento list \<Rightarrow> int \<Rightarrow> string \<Rightarrow> string \<Rightarrow> Dashboard" where
  "exemplo_dashboard xs dia q st =
     \<lparr>heap = [xs, []], agendamentos = 0, filteredAgendamentos = 1, loadingAgendamentos = False,
      diaSelecionado = dia, searchInput = q, statusFilter = st, log = []\<rparr>"

definition relogio :: "int \<Rightarrow> nat \<Rightarrow> int" where
  "relogio t0 k = t0 + int k"

definition exemplo_form :: "(string \<times> string) list" where
  "exemplo_form = [(''nome'', ''Ana''), (''email'', []), (''telefone'', ''(11) 90000-0001''),
     (''data'', ''2025-01-10''), (''horario'', ''09:00'')]"

definition form_sem_nome :: "(string \<times> string) list" where
  "form_sem_nome = [(''nome'', []), (''email'', []), (''telefone'', ''(11) 90000-0001''),
     (''data'', ''2025-01-10''), (''horario'', ''09:00'')]"

section \<open>Properties of the library functions\<close>

subsection \<open>Substring search\<close>

lemma startsWith_iff: "startsWith hay needle \<longleftrightarrow> (\<exists>suf. hay = needle @ suf)"
  by (induction hay needle rule: startsWith.induct) auto

lemma includes_str_iff: "includes_str hay needle \<longleftrightarrow> (\<exists>pre suf. hay = pre @ needle @ suf)"
proof (induction hay)
  case Nil
  then show ?case by auto
next
  case (Cons h hs)
  show ?case
  proof
    assume "includes_str (h # hs) needle"
    then consider "startsWith (h # hs) needle" | "includes_str hs needle" by auto
    then show "\<exists>pre suf. h # hs = pre @ needle @ suf"
    proof cases
      case 1
      then obtain suf where "h # hs = needle @ suf" using startsWith_iff by blast
      then have "h # hs = [] @ needle @ suf" by simp
      then show ?thesis by blast
    next
      case 2
      then obtain pre suf where "hs = pre @ needle @ suf" using Cons.IH by blast
      then have "h # hs = (h # pre) @ needle @ suf" by simp
      then show ?thesis by blast
    qed
  next
    assume "\<exists>pre suf. h # hs = pre @ needle @ suf"
    then obtain pre suf where eq: "h # hs = pre @ needle @ suf" by blast
    show "includes_str (h # hs) needle"
    proof (cases pre)
      case Nil
      then have "startsWith (h # hs) needle" using eq startsWith_iff by auto
      then show ?thesis by simp
    next
      case (Cons p ps)
      then have "hs = ps @ needle @ suf" using eq by simp
      then have "includes_str hs needle" using Cons.IH by blast
      then show ?thesis by simp
    qed
  qed
qed

lemma matchesSearch_ci:
  assumes "matchesSearch (toLowerCase q) a"
  shows "ci_substring q (nome a) \<or> (\<exists>e. email a = Some e \<and> ci_substring q e)"
  using assms
  by (auto simp: matchesSearch_def ci_substring_def includes_str_iff split: option.splits)

subsection \<open>Filtering with a clock\<close>

lemma filter_st_subseq: "subseq (filter_st f xs n) xs"
  by (induction xs arbitrary: n) (auto simp: Let_def intro: list_emb_Cons)

lemma filter_st_accepts:
  assumes step: "\<And>y m. m \<le> snd (f y m) \<and> snd (f y m) \<le> m + c"
    and mem: "x \<in> set (filter_st f xs n)"
  shows "\<exists>k. n \<le> k \<and> k + c \<le> n + c * length xs \<and> fst (f x k)"
  using mem
proof (induction xs arbitrary: n)
  case Nil
  then show ?case by simp
next
  case (Cons y ys)
  let ?n' = "snd (f y n)"
  have bounds: "n \<le> ?n'" "?n' \<le> n + c" using step [of n y] by simp_all
  from Cons.prems consider "x = y" "fst (f y n)" | "x \<in> set (filter_st f ys ?n')"
    by (auto simp: Let_def split: if_splits)
  then show ?case
  proof cases
    case 1
    then have "n \<le> n \<and> n + c \<le> n + c * length (y # ys) \<and> fst (f x n)" by simp
    then show ?thesis by blast
  next
    case 2
    from Cons.IH [OF 2] obtain k where k: "?n' \<le> k" "k + c \<le> ?n' + c * length ys" "fst (f x k)"
      by blast
    have "n \<le> k \<and> k + c \<le> n + c * length (y # ys) \<and> fst (f x k)"
      using k bounds by simp
    then show ?thesis by blast
  qed
qed

lemma filter_st_filter:
  assumes step: "\<And>y m. m \<le> snd (f y m) \<and> snd (f y m) \<le> m + c"
    and same: "\<And>x k. x \<in> set xs \<Longrightarrow> n \<le> k \<Longrightarrow> k + c \<le> n + c * length xs \<Longrightarrow> fst (f x k) = P x"
  shows "filter_st f xs n = filter P xs"
  using same
proof (induction xs arbitrary: n)
  case Nil
  then show ?case by simp
next
  case (Cons y ys)
  let ?n' = "snd (f y n)"
  have bounds: "n \<le> ?n'" "?n' \<le> n + c" using step [of n y] by simp_all
  have here: "fst (f y n) = P y"
    by (rule Cons.prems) simp_all
  have "filter_st f ys ?n' = filter P ys"
  proof (rule Cons.IH)
    fix x k
    assume x: "x \<in> set ys" and lo: "?n' \<le> k" and hi: "k + c \<le> ?n' + c * length ys"
    show "fst (f x k) = P x"
      by (rule Cons.prems) (use x lo hi bounds in simp_all)
  qed
  then show ?case using here by (simp add: Let_def)
qed

subsection \<open>Sorting\<close>

lemma mset_insert_by: "mset (insert_by cmp x xs) = add_mset x (mset xs)"
  by (induction xs) auto

lemma mset_sort_by: "mset (sort_by cmp xs) = mset xs"
  unfolding sort_by_def by (induction xs) (auto simp: mset_insert_by)

lemma insert_by_insort_key:
  "(\<And>y. y \<in> set ys \<Longrightarrow> compare_le cmp x y = (key x \<le> key y)) \<Longrightarrow>
   insert_by cmp x ys = insort_key key x ys"
  by (induction ys) auto

lemma sort_by_sort_key:
  "(\<And>x y. x \<in> set xs \<Longrightarrow> y \<in> set xs \<Longrightarrow> compare_le cmp x y = (key x \<le> key y)) \<Longrightarrow>
   sort_by cmp xs = sort_key key xs"
proof (induction xs)
  case Nil
  then show ?case by (simp add: sort_by_def)
next
  case (Cons x xs)
  have IH: "sort_by cmp xs = sort_key key xs" using Cons by simp
  have "insert_by cmp x (sort_key key xs) = insort_key key x (sort_key key xs)"
    by (rule insert_by_insort_key) (use Cons.prems in simp)
  then show ?case using IH by (simp add: sort_by_def)
qed

subsection \<open>Dates\<close>

lemma DayFromYear_decomp:
  assumes "0 \<le> b" "b \<le> 3" "0 \<le> c" "c \<le> 24" "0 \<le> e" "e \<le> 3"
  shows "DayFromYear (1601 + 400 * a + 100 * b + 4 * c + e) =
           146097 * a + 36524 * b + 1461 * c + 365 * e - 134774"
proof -
  let ?k = "400 * a + 100 * b + 4 * c + e"
  have 1: "(1601 + ?k - 1969) div 4 = 100 * a + 25 * b + c - 92" using assms by arith
  have 2: "(1601 + ?k - 1901) div 100 = 4 * a + b - 3" using assms by arith
  have 3: "(1601 + ?k - 1601) div 400 = a" using assms by arith
  show ?thesis
    unfolding DayFromYear_def using 1 2 3 by (simp add: algebra_simps)
qed

text \<open>\<open>YearFromTime\<close> computes the year the ECMAScript specification defines.\<close>

lemma YearFromTime_spec:
  "DayFromYear (YearFromTime t) \<le> Day t \<and> Day t < DayFromYear (YearFromTime t + 1)"
proof -
  define d where "d = Day t + 134774"
  define a where "a = d div 146097"
  define r where "r = d mod 146097"
  define b where "b = min (r div 36524) 3"
  define r1 where "r1 = r - b * 36524"
  define c where "c = r1 div 1461"
  define r2 where "r2 = r1 mod 1461"
  define e where "e = min (r2 div 365) 3"
  have y: "YearFromTime t = 1601 + 400 * a + 100 * b + 4 * c + e"
    by (simp add: YearFromTime_def DayFromYear_def Let_def d_def a_def r_def b_def r1_def c_def
        r2_def e_def)
  have r: "0 \<le> r" "r < 146097" by (simp_all add: r_def)
  have b: "0 \<le> b" "b \<le> 3" using r by (simp_all add: b_def)
  have r1: "0 \<le> r1" "r1 \<le> 36524" using r unfolding r1_def b_def by arith+
  have r1': "b < 3 \<Longrightarrow> r1 < 36524" using r unfolding r1_def b_def by arith
  have c: "0 \<le> c" "c \<le> 24" using r1 unfolding c_def by arith+
  have r2: "0 \<le> r2" "r2 < 1461" by (simp_all add: r2_def)
  have e: "0 \<le> e" "e \<le> 3" using r2 by (simp_all add: e_def)
  have e_lo: "365 * e \<le> r2" using r2 unfolding e_def by arith
  have e_hi: "e < 3 \<Longrightarrow> r2 < 365 * (e + 1)" using r2 unfolding e_def by arith
  have r1_eq: "r1 = 1461 * c + r2" by (simp add: c_def r2_def)
  have "d = 146097 * a + r" by (simp add: a_def r_def)
  moreover have "r = r1 + 36524 * b" by (simp add: r1_def)
  ultimately have d_eq: "d = 146097 * a + 36524 * b + 1461 * c + r2"
    using r1_eq by simp
  have day: "Day t = d - 134774" by (simp add: d_def)
  have "DayFromYear (YearFromTime t) =
          146097 * a + 36524 * b + 1461 * c + 365 * e - 134774"
    unfolding y by (rule DayFromYear_decomp [OF b c e])
  then have lower: "DayFromYear (YearFromTime t) \<le> Day t"
    using day d_eq e_lo by simp
  have upper: "Day t < DayFromYear (YearFromTime t + 1)"
  proof (cases "e < 3")
    case True
    then have e': "0 \<le> e + 1" "e + 1 \<le> 3" using e by simp_all
    have "YearFromTime t + 1 = 1601 + 400 * a + 100 * b + 4 * c + (e + 1)" by (simp add: y)
    then have "DayFromYear (YearFromTime t + 1) =
                 146097 * a + 36524 * b + 1461 * c + 365 * (e + 1) - 134774"
      using DayFromYear_decomp [OF b c e'] by simp
    then show ?thesis
      using day d_eq e_hi [OF True] by simp
  next
    case e3: False
    then have e_eq: "e = 3" using e by simp
    show ?thesis
    proof (cases "c < 24")
      case True
      then have c': "0 \<le> c + 1" "c + 1 \<le> 24" using c by simp_all
      have z: "(0::int) \<le> 0" "(0::int) \<le> 3" by simp_all
      have "YearFromTime t + 1 = 1601 + 400 * a + 100 * b + 4 * (c + 1) + 0"
        by (simp add: y e_eq)
      then have "DayFromYear (YearFromTime t + 1) =
                   146097 * a + 36524 * b + 1461 * (c + 1) + 365 * 0 - 134774"
        using DayFromYear_decomp [OF b c' z] by simp
      then show ?thesis
        using day d_eq r2 by simp
    next
      case c24: False
      then have c_eq: "c = 24" using c by simp
      show ?thesis
      proof (cases "b < 3")
        case True
        then have b': "0 \<le> b + 1" "b + 1 \<le> 3" using b by simp_all
        have z: "(0::int) \<le> 0" "(0::int) \<le> 24" "(0::int) \<le> 0" "(0::int) \<le> 3" by simp_all
        have "YearFromTime t + 1 = 1601 + 400 * a + 100 * (b + 1) + 4 * 0 + 0"
          by (simp add: y e_eq c_eq)
        then have "DayFromYear (YearFromTime t + 1) =
                     146097 * a + 36524 * (b + 1) + 1461 * 0 + 365 * 0 - 134774"
          using DayFromYear_decomp [OF b' z] by simp
        then show ?thesis
          using day d_eq r1' [OF True] r1_eq c_eq by simp
      next
        case False
        then have b_eq: "b = 3" using b by simp
        have z: "(0::int) \<le> 0" "(0::int) \<le> 3" "(0::int) \<le> 0" "(0::int) \<le> 24"
          "(0::int) \<le> 0" "(0::int) \<le> 3" by simp_all
        have eq: "YearFromTime t + 1 = 1601 + 400 * (a + 1) + 100 * 0 + 4 * 0 + 0"
          by (simp add: y e_eq c_eq b_eq)
        have "DayFromYear (1601 + 400 * (a + 1) + 100 * 0 + 4 * 0 + 0) =
                146097 * (a + 1) + 36524 * 0 + 1461 * 0 + 365 * 0 - 134774"
          by (rule DayFromYear_decomp [OF z])
        then have "DayFromYear (YearFromTime t + 1) =
                     146097 * (a + 1) + 36524 * 0 + 1461 * 0 + 365 * 0 - 134774"
          by (simp only: eq [symmetric])
        moreover have "r = 36524 * b + 1461 * c + r2" using r1_eq by (simp add: r1_def)
        ultimately show ?thesis
          using day d_eq r b_eq c_eq by simp
      qed
    qed
  qed
  from lower upper show ?thesis by simp
qed

lemma MonthFromTime_range: "0 \<le> MonthFromTime t \<and> MonthFromTime t \<le> 11"
  by (simp add: MonthFromTime_def Let_def)

lemma MakeDay_of_date:
  "MakeDay (YearFromTime t) (MonthFromTime t) (DateFromTime t - k) = Day t - k"
proof -
  have m: "MonthFromTime t div 12 = 0" "MonthFromTime t mod 12 = MonthFromTime t"
    using MonthFromTime_range [of t] by simp_all
  show ?thesis
    by (simp add: MakeDay_def m DateFromTime_def DayWithinYear_def InLeapYear_def)
qed

lemma Day_shift: "Day (t - k * msPerDay) = Day t - k"
  by (simp add: Day_def msPerDay_def)

lemma TimeWithinDay_decomp: "Day t * msPerDay + TimeWithinDay t = t"
  by (simp add: Day_def TimeWithinDay_def)

lemma Day_bounds: "Day x = D \<Longrightarrow> D * msPerDay \<le> x \<and> x < D * msPerDay + msPerDay"
  by (auto simp: Day_def msPerDay_def)

lemma TimeClip_valid: "valid_time t \<Longrightarrow> TimeClip t = Some t"
  by (simp add: TimeClip_def valid_time_def)

lemma TimeClip_Some: "TimeClip t = Some u \<Longrightarrow> u = t"
  by (simp add: TimeClip_def split: if_splits)

lemma setHours_Some:
  "setHours E h m s ms (Some tv) =
     TimeClip (Day (tv + LocalTZA E) * msPerDay + MakeTime h m s ms - LocalTZA E)"
  by (simp add: setHours_def LocalTime_def UTC_def MakeDate_def)

text \<open>\<^verbatim>\<open>d.setDate(d.getDate() - k)\<close> moves a date back by \<open>k\<close> days.\<close>

lemma setDate_getDate:
  "setDate E (num_minus (getDate E (Some tv)) (Some k)) (Some tv) = TimeClip (tv - k * msPerDay)"
proof -
  let ?t = "tv + LocalTZA E"
  have "MakeDate (MakeDay (YearFromTime ?t) (MonthFromTime ?t) (DateFromTime ?t - k))
          (TimeWithinDay ?t) = ?t - k * msPerDay"
    using TimeWithinDay_decomp [of ?t]
    by (simp add: MakeDay_of_date MakeDate_def algebra_simps)
  then show ?thesis
    by (simp add: setDate_def getDate_def num_minus_def LocalTime_def UTC_def)
qed

section \<open>Properties of the filter and sort effect\<close>

lemma callback_reads:
  "n \<le> snd (filterCallback E clk s lf a n) \<and> snd (filterCallback E clk s lf a n) \<le> n + 3"
  by (simp add: filterCallback_def Let_def)

lemma callback_accepts:
  assumes "fst (filterCallback E clk s lf a k)"
  shows "matchesSearch lf a \<and> matchesStatus s a \<and> (\<exists>t. composed E a = Some t)"
  using assms
  by (auto simp: filterCallback_def Let_def date_ge_def split: if_splits option.splits)

lemma callback_weekday:
  assumes "0 \<le> diaSelecionado s" "diaSelecionado s \<le> 6"
    and "Day (LocalTime E (clk k)) = D"
    and "fst (filterCallback E clk s lf a k)"
  shows "\<exists>t. composed E a = Some t \<and> WeekDay (LocalTime E t) = diaSelecionado s \<and>
             startOfDay E D \<le> t"
proof -
  have h: "setHours E 0 0 0 0 (Some (clk k)) = TimeClip (startOfDay E D)"
    using assms(3) by (simp add: setHours_Some startOfDay_def LocalTime_def MakeTime_def)
  from assms(1,2,4) have g: "getDay E (composed E a) = Some (diaSelecionado s)"
    and d: "date_ge (composed E a) (TimeClip (startOfDay E D))"
    by (simp_all add: filterCallback_def Let_def h)
  from d obtain t u where t: "composed E a = Some t" and u: "TimeClip (startOfDay E D) = Some u"
    and le: "u \<le> t"
    by (auto simp: date_ge_def split: option.splits)
  have "u = startOfDay E D" using u by (rule TimeClip_Some)
  moreover have "WeekDay (LocalTime E t) = diaSelecionado s" using g t by (simp add: getDay_def)
  ultimately show ?thesis using t le by simp
qed

lemma callback_lastweek:
  assumes "diaSelecionado s = - 1"
    and day1: "Day (LocalTime E (clk (Suc k))) = D"
    and day2: "Day (LocalTime E (clk (Suc (Suc k)))) = D"
    and lo: "valid_time (startOfDay E (D - 7))"
    and hi: "valid_time (endOfDay E D)"
  shows "fst (filterCallback E clk s lf a k) \<longleftrightarrow>
           matchesSearch lf a \<and> matchesStatus s a \<and>
           (\<exists>t. composed E a = Some t \<and> startOfDay E (D - 7) \<le> t \<and> t \<le> endOfDay E D)"
proof -
  have fim: "setHours E 23 59 59 999 (Some (clk (Suc k))) = Some (endOfDay E D)"
    using day1 hi
    by (simp add: setHours_Some endOfDay_def LocalTime_def MakeTime_def TimeClip_valid)
  let ?c = "clk (Suc (Suc k))"
  have b: "D * msPerDay \<le> ?c + LocalTZA E \<and> ?c + LocalTZA E < D * msPerDay + msPerDay"
    using day2 Day_bounds [of "?c + LocalTZA E" D] by (simp add: LocalTime_def)
  have "valid_time (?c - 7 * msPerDay)"
    using b lo hi unfolding valid_time_def startOfDay_def endOfDay_def msPerDay_def by arith
  then have sd: "setDate E (num_minus (getDate E (Some ?c)) (Some 7)) (Some ?c) =
                   Some (?c - 7 * msPerDay)"
    by (simp add: setDate_getDate TimeClip_valid)
  have "Day (?c - 7 * msPerDay + LocalTZA E) = D - 7"
    using day2 Day_shift [of "?c + LocalTZA E" 7]
    by (simp add: LocalTime_def algebra_simps)
  then have atras: "setHours E 0 0 0 0 (Some (?c - 7 * msPerDay)) = Some (startOfDay E (D - 7))"
    using lo by (simp add: setHours_Some startOfDay_def MakeTime_def TimeClip_valid)
  show ?thesis
    using assms(1)
    by (auto simp: filterCallback_def Let_def fim sd atras date_ge_def date_le_def
        split: option.splits)
qed

lemma callback_other:
  assumes "diaSelecionado s < - 1 \<or> 6 < diaSelecionado s"
  shows "\<not> fst (filterCallback E clk s lf a k)"
  using assms by (auto simp: filterCallback_def Let_def)

lemma compare_le_valid:
  assumes "composed E x = Some tx" "composed E y = Some ty"
  shows "compare_le (compareFn E) x y = (tx \<le> ty)"
  using assms by (simp add: compare_le_def compareFn_def num_minus_def getTime_def)

lemma displayed_kept: "displayed E clk s = sort_by (compareFn E) (kept E clk s)"
  by (simp add: displayed_def filterEffect_def array_filter_def array_sort_def deref_def kept_def
      split: prod.splits)

lemma kept_subseq: "subseq (kept E clk s) (deref s (agendamentos s))"
  by (simp add: kept_def filter_st_subseq)

lemma kept_accepts:
  assumes "a \<in> set (kept E clk s)"
  shows "\<exists>k. k + 3 \<le> 3 * length (deref s (agendamentos s)) \<and>
             fst (filterCallback E clk s (toLowerCase (searchInput s)) a k)"
proof -
  from filter_st_accepts [OF callback_reads assms [unfolded kept_def]]
  show ?thesis by auto
qed

lemma kept_valid: "a \<in> set (kept E clk s) \<Longrightarrow> \<exists>t. composed E a = Some t"
  using kept_accepts callback_accepts by blast

lemma set_displayed: "set (displayed E clk s) = set (kept E clk s)"
proof -
  have "mset (displayed E clk s) = mset (kept E clk s)"
    by (simp add: displayed_kept mset_sort_by)
  then show ?thesis by (rule mset_eq_setD)
qed

lemma displayed_sort_key:
  "displayed E clk s = sort_key (\<lambda>a. the (composed E a)) (kept E clk s)"
proof -
  have "compare_le (compareFn E) x y = (the (composed E x) \<le> the (composed E y))"
    if xin: "x \<in> set (kept E clk s)" and yin: "y \<in> set (kept E clk s)" for x y
  proof -
    obtain tx where tx: "composed E x = Some tx" using kept_valid [OF xin] by blast
    obtain ty where ty: "composed E y = Some ty" using kept_valid [OF yin] by blast
    show ?thesis by (simp add: compare_le_valid [OF tx ty] tx ty)
  qed
  then show ?thesis
    unfolding displayed_kept by (rule sort_by_sort_key)
qed

lemma clock_on_dayD:
  "clock_on_day E clk n D \<Longrightarrow> k < 3 * n \<Longrightarrow> Day (LocalTime E (clk k)) = D"
  by (simp add: clock_on_day_def)

lemma clock_on_day_relogio:
  assumes "Day (t0 + LocalTZA E) = D" and "Day (t0 + int (3 * n) + LocalTZA E) = D"
  shows "clock_on_day E (relogio t0) n D"
  unfolding clock_on_day_def
proof (intro allI impI)
  fix k
  assume "k < 3 * n"
  then show "Day (LocalTime E (relogio t0 k)) = D"
    using assms unfolding Day_def LocalTime_def relogio_def msPerDay_def by arith
qed

section \<open>The claims about the filter and sort engine\<close>

text \<open>
  C1. For every list and every filter setting, the list on display is ordered
  non-decreasingly by composed date-time, and records with equal composed date-time keep
  the relative order they have in the source list: the output is a rearrangement of a
  subsequence \<open>ys\<close> of the source, its composed date-times are valid and ascending, and
  for every date-time the records that carry it appear in the same order as in \<open>ys\<close>.
\<close>

theorem filter_sort_ordered_stable:
  "\<exists>ys ks. subseq ys (deref s (agendamentos s)) \<and>
     mset (displayed E clk s) = mset ys \<and>
     map (composed E) (displayed E clk s) = map Some ks \<and> sorted ks \<and>
     (\<forall>t. filter (\<lambda>a. composed E a = t) (displayed E clk s) = filter (\<lambda>a. composed E a = t) ys)"
proof -
  let ?key = "\<lambda>a. the (composed E a)"
  let ?ys = "kept E clk s"
  let ?out = "displayed E clk s"
  let ?ks = "map ?key ?out"
  have valid: "composed E a = Some (?key a)" if "a \<in> set ?ys" for a
    using kept_valid [OF that] by auto
  have 1: "subseq ?ys (deref s (agendamentos s))" by (rule kept_subseq)
  have 2: "mset ?out = mset ?ys" by (simp add: displayed_kept mset_sort_by)
  have 3: "map (composed E) ?out = map Some ?ks"
    using valid by (simp add: set_displayed)
  have 4: "sorted ?ks" by (simp add: displayed_sort_key)
  have 5: "filter (\<lambda>a. composed E a = t) ?out = filter (\<lambda>a. composed E a = t) ?ys" for t
  proof (cases t)
    case None
    have "filter (\<lambda>a. composed E a = None) ?out = []"
      using valid by (auto simp: filter_empty_conv set_displayed)
    moreover have "filter (\<lambda>a. composed E a = None) ?ys = []"
      using valid by (auto simp: filter_empty_conv)
    ultimately show ?thesis using None by simp
  next
    case (Some v)
    have "filter (\<lambda>a. composed E a = Some v) ?out = filter (\<lambda>a. ?key a = v) ?out"
      by (rule filter_cong) (use valid in \<open>auto simp: set_displayed\<close>)
    also have "\<dots> = filter (\<lambda>a. ?key a = v) ?ys"
      unfolding displayed_sort_key by (rule sort_key_stable)
    also have "\<dots> = filter (\<lambda>a. composed E a = Some v) ?ys"
      by (rule filter_cong) (use valid in auto)
    finally show ?thesis using Some by simp
  qed
  from 1 2 3 4 5 show ?thesis by blast
qed

text \<open>
  The example of the specification: Ana at 09:00 before Bea at 08:00 in the source, the
  selector on the last week; Bea comes first on display.
\<close>

theorem filter_sort_ordered_stable_witness:
  "displayed (iso_env 0) (relogio 1736683200000)
     (exemplo_dashboard [exemplo_ana, exemplo_bea] (- 1) [] []) = [exemplo_bea, exemplo_ana] \<and>
   (\<exists>ys ks.
      subseq ys (deref (exemplo_dashboard [exemplo_ana, exemplo_bea] (- 1) [] [])
                   (agendamentos (exemplo_dashboard [exemplo_ana, exemplo_bea] (- 1) [] []))) \<and>
      mset (displayed (iso_env 0) (relogio 1736683200000)
              (exemplo_dashboard [exemplo_ana, exemplo_bea] (- 1) [] [])) = mset ys \<and>
      map (composed (iso_env 0))
        (displayed (iso_env 0) (relogio 1736683200000)
           (exemplo_dashboard [exemplo_ana, exemplo_bea] (- 1) [] [])) = map Some ks \<and>
      sorted ks \<and>
      (\<forall>t. filter (\<lambda>a. composed (iso_env 0) a = t)
             (displayed (iso_env 0) (relogio 1736683200000)
                (exemplo_dashboard [exemplo_ana, exemplo_bea] (- 1) [] [])) =
           filter (\<lambda>a. composed (iso_env 0) a = t) ys))"
proof (rule conjI)
  show "displayed (iso_env 0) (relogio 1736683200000)
     (exemplo_dashboard [exemplo_ana, exemplo_bea] (- 1) [] []) = [exemplo_bea, exemplo_ana]"
    by code_simp
next
  show "\<exists>ys ks.
      subseq ys (deref (exemplo_dashboard [exemplo_ana, exemplo_bea] (- 1) [] [])
                   (agendamentos (exemplo_dashboard [exemplo_ana, exemplo_bea] (- 1) [] []))) \<and>
      mset (displayed (iso_env 0) (relogio 1736683200000)
              (exemplo_dashboard [exemplo_ana, exemplo_bea] (- 1) [] [])) = mset ys \<and>
      map (composed (iso_env 0))
        (displayed (iso_env 0) (relogio 1736683200000)
           (exemplo_dashboard [exemplo_ana, exemplo_bea] (- 1) [] [])) = map Some ks \<and>
      sorted ks \<and>
      (\<forall>t. filter (\<lambda>a. composed (iso_env 0) a = t)
             (displayed (iso_env 0) (relogio 1736683200000)
                (exemplo_dashboard [exemplo_ana, exemplo_bea] (- 1) [] [])) =
           filter (\<lambda>a. composed (iso_env 0) a = t) ys)"
    by (rule filter_sort_ordered_stable)
qed

text \<open>
  C2. For every search string and every list, every record on display contains the
  search string as a case-insensitive substring of its name or of its email; and the
  search condition computed for the empty search string holds for every record.
\<close>

theorem search_match:
  "(a \<in> set (displayed E clk s) \<longrightarrow>
      ci_substring (searchInput s) (nome a) \<or>
      (\<exists>e. email a = Some e \<and> ci_substring (searchInput s) e)) \<and>
   matchesSearch (toLowerCase []) b"
proof
  show "a \<in> set (displayed E clk s) \<longrightarrow>
      ci_substring (searchInput s) (nome a) \<or>
      (\<exists>e. email a = Some e \<and> ci_substring (searchInput s) e)"
  proof
    assume "a \<in> set (displayed E clk s)"
    then have "a \<in> set (kept E clk s)" by (simp add: set_displayed)
    then obtain k where "fst (filterCallback E clk s (toLowerCase (searchInput s)) a k)"
      using kept_accepts by blast
    then have "matchesSearch (toLowerCase (searchInput s)) a"
      using callback_accepts by blast
    then show "ci_substring (searchInput s) (nome a) \<or>
      (\<exists>e. email a = Some e \<and> ci_substring (searchInput s) e)"
      by (rule matchesSearch_ci)
  qed
  show "matchesSearch (toLowerCase []) b"
    by (cases "toLowerCase (nome b)") (simp_all add: matchesSearch_def toLowerCase_def)
qed

text \<open>
  Searching for \<^verbatim>\<open>EXAMPLE\<close> finds Bea through her email \<^verbatim>\<open>BEA@example.org\<close>, and not Ana,
  who has none.
\<close>

theorem search_match_witness:
  "displayed (iso_env 0) (relogio 1736683200000)
     (exemplo_dashboard [exemplo_ana, exemplo_bea] (- 1) ''EXAMPLE'' []) = [exemplo_bea] \<and>
   (ci_substring ''EXAMPLE'' (nome exemplo_bea) \<or>
    (\<exists>e. email exemplo_bea = Some e \<and> ci_substring ''EXAMPLE'' e)) \<and>
   matchesSearch (toLowerCase []) exemplo_ana"
proof -
  let ?s = "exemplo_dashboard [exemplo_ana, exemplo_bea] (- 1) ''EXAMPLE'' []"
  have d: "displayed (iso_env 0) (relogio 1736683200000) ?s = [exemplo_bea]"
    by code_simp
  have q: "searchInput ?s = ''EXAMPLE''" by (simp add: exemplo_dashboard_def)
  have m: "exemplo_bea \<in> set (displayed (iso_env 0) (relogio 1736683200000) ?s)"
    by (simp add: d)
  from search_match [of exemplo_bea "iso_env 0" "relogio 1736683200000" ?s exemplo_ana] m q d
  show ?thesis by simp
qed

text \<open>
  C3. For a day selector in 0..6, when every clock reading of the run falls on local
  day \<open>D\<close>, a record is on display only if its composed date-time is valid, falls on the
  selected weekday (0 is Sunday) and is not earlier than the start of day \<open>D\<close>.
\<close>

theorem weekday_selector:
  assumes "0 \<le> diaSelecionado s" and "diaSelecionado s \<le> 6"
    and "clock_on_day E clk (length (deref s (agendamentos s))) D"
    and "a \<in> set (displayed E clk s)"
  shows "\<exists>t. composed E a = Some t \<and> WeekDay (LocalTime E t) = diaSelecionado s \<and>
             startOfDay E D \<le> t"
proof -
  from assms(4) have "a \<in> set (kept E clk s)" by (simp add: set_displayed)
  then obtain k where b: "k + 3 \<le> 3 * length (deref s (agendamentos s))"
    and k: "fst (filterCallback E clk s (toLowerCase (searchInput s)) a k)"
    using kept_accepts by blast
  have "Day (LocalTime E (clk k)) = D"
    by (rule clock_on_dayD [OF assms(3)]) (use b in simp)
  from callback_weekday [OF assms(1) assms(2) this k] show ?thesis .
qed

text \<open>
  On Sunday 12 January 2025, with the selector on Sunday, a list that holds the Sunday
  before and the Sunday after shows only the one after.
\<close>

theorem weekday_selector_witness:
  "diaSelecionado (exemplo_dashboard [domingo_passado, domingo_futuro] 0 [] []) = 0 \<and>
   clock_on_day (iso_env 0) (relogio 1736683200000) 2 20100 \<and>
   composed (iso_env 0) domingo_passado = Some 1736071200000 \<and>
   WeekDay (LocalTime (iso_env 0) 1736071200000) = 0 \<and>
   displayed (iso_env 0) (relogio 1736683200000)
     (exemplo_dashboard [domingo_passado, domingo_futuro] 0 [] []) = [domingo_futuro] \<and>
   (\<exists>t. composed (iso_env 0) domingo_futuro = Some t \<and>
        WeekDay (LocalTime (iso_env 0) t) = 0 \<and> startOfDay (iso_env 0) 20100 \<le> t)"
proof -
  let ?s = "exemplo_dashboard [domingo_passado, domingo_futuro] 0 [] []"
  have sel: "diaSelecionado ?s = 0" by (simp add: exemplo_dashboard_def)
  have len: "length (deref ?s (agendamentos ?s)) = 2"
    by (simp add: exemplo_dashboard_def deref_def)
  have clk: "clock_on_day (iso_env 0) (relogio 1736683200000) 2 20100"
    by (rule clock_on_day_relogio) (simp_all add: iso_env_def Day_def msPerDay_def)
  have past: "composed (iso_env 0) domingo_passado = Some 1736071200000" by code_simp
  have sunday: "WeekDay (LocalTime (iso_env 0) 1736071200000) = 0" by code_simp
  have d: "displayed (iso_env 0) (relogio 1736683200000) ?s = [domingo_futuro]" by code_simp
  have m: "domingo_futuro \<in> set (displayed (iso_env 0) (relogio 1736683200000) ?s)"
    by (simp add: d)
  have "\<exists>t. composed (iso_env 0) domingo_futuro = Some t \<and>
        WeekDay (LocalTime (iso_env 0) t) = diaSelecionado ?s \<and> startOfDay (iso_env 0) 20100 \<le> t"
    by (rule weekday_selector [where D = 20100 and clk = "relogio 1736683200000"])
      (simp_all add: sel len clk m)
  then show ?thesis using sel clk past sunday d by simp
qed

text \<open>
  C4. For the day selector -1, when every clock reading of the run falls on local day
  \<open>D\<close> and the two ends of the window are valid time values, a record is on display if
  and only if it is in the source list, passes the search and the status conditions, and
  its composed date-time lies between 00:00:00.000 of day \<open>D - 7\<close> and 23:59:59.999 of
  day \<open>D\<close>, ends included.
\<close>

theorem last_week_selector:
  assumes "diaSelecionado s = - 1"
    and "clock_on_day E clk (length (deref s (agendamentos s))) D"
    and "valid_time (startOfDay E (D - 7))" and "valid_time (endOfDay E D)"
  shows "a \<in> set (displayed E clk s) \<longleftrightarrow>
           a \<in> set (deref s (agendamentos s)) \<and>
           matchesSearch (toLowerCase (searchInput s)) a \<and> matchesStatus s a \<and>
           (\<exists>t. composed E a = Some t \<and> startOfDay E (D - 7) \<le> t \<and> t \<le> endOfDay E D)"
proof -
  let ?P = "\<lambda>a. matchesSearch (toLowerCase (searchInput s)) a \<and> matchesStatus s a \<and>
           (\<exists>t. composed E a = Some t \<and> startOfDay E (D - 7) \<le> t \<and> t \<le> endOfDay E D)"
  let ?xs = "deref s (agendamentos s)"
  have "filter_st (filterCallback E clk s (toLowerCase (searchInput s))) ?xs 0 = filter ?P ?xs"
  proof (rule filter_st_filter [OF callback_reads])
    fix x k
    assume "k + 3 \<le> 0 + 3 * length ?xs"
    then have k1: "Suc k < 3 * length ?xs" and k2: "Suc (Suc k) < 3 * length ?xs" by simp_all
    show "fst (filterCallback E clk s (toLowerCase (searchInput s)) x k) = ?P x"
      by (rule callback_lastweek [OF assms(1) clock_on_dayD [OF assms(2) k1]
            clock_on_dayD [OF assms(2) k2] assms(3) assms(4)])
  qed
  then have "kept E clk s = filter ?P ?xs" by (simp add: kept_def)
  then show ?thesis by (auto simp: set_displayed)
qed

text \<open>
  On 12 January 2025 the window runs from 5 January 00:00:00.000 to 12 January
  23:59:59.999: Ana (10 January) is on display, the Sunday of 19 January is not.
\<close>

theorem last_week_selector_witness:
  "diaSelecionado (exemplo_dashboard [exemplo_ana, domingo_futuro] (- 1) [] []) = - 1 \<and>
   clock_on_day (iso_env 0) (relogio 1736683200000) 2 20100 \<and>
   valid_time (startOfDay (iso_env 0) (20100 - 7)) \<and> valid_time (endOfDay (iso_env 0) 20100) \<and>
   displayed (iso_env 0) (relogio 1736683200000)
     (exemplo_dashboard [exemplo_ana, domingo_futuro] (- 1) [] []) = [exemplo_ana] \<and>
   (\<exists>t. composed (iso_env 0) exemplo_ana = Some t \<and>
        startOfDay (iso_env 0) (20100 - 7) \<le> t \<and> t \<le> endOfDay (iso_env 0) 20100)"
proof -
  let ?s = "exemplo_dashboard [exemplo_ana, domingo_futuro] (- 1) [] []"
  have sel: "diaSelecionado ?s = - 1" by (simp add: exemplo_dashboard_def)
  have len: "length (deref ?s (agendamentos ?s)) = 2"
    by (simp add: exemplo_dashboard_def deref_def)
  have clk: "clock_on_day (iso_env 0) (relogio 1736683200000) 2 20100"
    by (rule clock_on_day_relogio) (simp_all add: iso_env_def Day_def msPerDay_def)
  have lo: "valid_time (startOfDay (iso_env 0) (20100 - 7))"
    by (simp add: valid_time_def startOfDay_def iso_env_def msPerDay_def)
  have hi: "valid_time (endOfDay (iso_env 0) 20100)"
    by (simp add: valid_time_def endOfDay_def iso_env_def msPerDay_def)
  have d: "displayed (iso_env 0) (relogio 1736683200000) ?s = [exemplo_ana]" by code_simp
  have m: "exemplo_ana \<in> set (displayed (iso_env 0) (relogio 1736683200000) ?s)"
    by (simp add: d)
  have clk': "clock_on_day (iso_env 0) (relogio 1736683200000)
                (length (deref ?s (agendamentos ?s))) 20100"
    using clk len by simp
  from last_week_selector [OF sel clk' lo hi, of exemplo_ana] m
  have "\<exists>t. composed (iso_env 0) exemplo_ana = Some t \<and>
        startOfDay (iso_env 0) (20100 - 7) \<le> t \<and> t \<le> endOfDay (iso_env 0) 20100"
    by simp
  then show ?thesis using sel clk lo hi d by simp
qed

text \<open>
  C5, as the code has it. For every day selector outside -1..6 no branch assigns
  \<^verbatim>\<open>matchesDate\<close>, which keeps its initial value \<^verbatim>\<open>false\<close>: the list on display is empty,
  whatever the records, the search and the status.
\<close>

theorem other_selector_empty:
  assumes "diaSelecionado s < - 1 \<or> 6 < diaSelecionado s"
  shows "displayed E clk s = []"
proof -
  have "a \<notin> set (kept E clk s)" for a
  proof
    assume "a \<in> set (kept E clk s)"
    then obtain k where "fst (filterCallback E clk s (toLowerCase (searchInput s)) a k)"
      using kept_accepts by blast
    then show False using callback_other [OF assms] by blast
  qed
  then have "kept E clk s = []" by (cases "kept E clk s") auto
  then show ?thesis by (simp add: displayed_kept sort_by_def)
qed

theorem other_selector_empty_witness:
  "diaSelecionado (exemplo_dashboard [exemplo_ana, exemplo_bea] (- 2) [] []) = - 2 \<and>
   displayed (iso_env 0) (relogio 1736683200000)
     (exemplo_dashboard [exemplo_ana, exemplo_bea] (- 2) [] []) = []"
proof -
  let ?s = "exemplo_dashboard [exemplo_ana, exemplo_bea] (- 2) [] []"
  have sel: "diaSelecionado ?s = - 2" by (simp add: exemplo_dashboard_def)
  then have "diaSelecionado ?s < - 1 \<or> 6 < diaSelecionado ?s" by simp
  from other_selector_empty [OF this] sel show ?thesis by simp
qed

text \<open>
  The claim as stated fails: with the selector -2, no search string and no status
  selected, Ana is in the source list and passes the search and the status conditions,
  and she is not on display.
\<close>

theorem other_selector_counterexample:
  "exemplo_ana \<in> set (deref (exemplo_dashboard [exemplo_ana] (- 2) [] [])
                         (agendamentos (exemplo_dashboard [exemplo_ana] (- 2) [] []))) \<and>
   matchesSearch (toLowerCase (searchInput (exemplo_dashboard [exemplo_ana] (- 2) [] [])))
     exemplo_ana \<and>
   matchesStatus (exemplo_dashboard [exemplo_ana] (- 2) [] []) exemplo_ana \<and>
   diaSelecionado (exemplo_dashboard [exemplo_ana] (- 2) [] []) = - 2 \<and>
   exemplo_ana \<notin> set (displayed (iso_env 0) (relogio 1736683200000)
                         (exemplo_dashboard [exemplo_ana] (- 2) [] []))"
proof (intro conjI)
  show "exemplo_ana \<in> set (deref (exemplo_dashboard [exemplo_ana] (- 2) [] [])
                         (agendamentos (exemplo_dashboard [exemplo_ana] (- 2) [] [])))"
    by (simp add: exemplo_dashboard_def deref_def)
  show "matchesSearch (toLowerCase (searchInput (exemplo_dashboard [exemplo_ana] (- 2) [] [])))
     exemplo_ana"
    by code_simp
  show "matchesStatus (exemplo_dashboard [exemplo_ana] (- 2) [] []) exemplo_ana"
    by code_simp
  show "diaSelecionado (exemplo_dashboard [exemplo_ana] (- 2) [] []) = - 2"
    by (simp add: exemplo_dashboard_def)
  have "displayed (iso_env 0) (relogio 1736683200000)
          (exemplo_dashboard [exemplo_ana] (- 2) [] []) = []"
    by code_simp
  then show "exemplo_ana \<notin> set (displayed (iso_env 0) (relogio 1736683200000)
                         (exemplo_dashboard [exemplo_ana] (- 2) [] []))"
    by simp
qed

text \<open>
  C6. The effect is a total function of the state with no failing branch: after it the
  list on display is an array of the heap, and a record whose composed date-time does
  not parse is not in it.
\<close>

theorem unparseable_filtered_out:
  "(composed E a = None \<longrightarrow> a \<notin> set (displayed E clk s)) \<and>
   filteredAgendamentos (filterEffect E clk s) < length (heap (filterEffect E clk s))"
proof
  show "composed E a = None \<longrightarrow> a \<notin> set (displayed E clk s)"
  proof
    assume none: "composed E a = None"
    show "a \<notin> set (displayed E clk s)"
    proof
      assume "a \<in> set (displayed E clk s)"
      then have "a \<in> set (kept E clk s)" by (simp add: set_displayed)
      then obtain t where "composed E a = Some t" using kept_valid by blast
      then show False using none by simp
    qed
  qed
  show "filteredAgendamentos (filterEffect E clk s) < length (heap (filterEffect E clk s))"
    by (simp add: filterEffect_def array_filter_def array_sort_def split: prod.splits)
qed

theorem unparseable_filtered_out_witness:
  "composed (iso_env 0) sem_data = None \<and>
   sem_data \<notin> set (displayed (iso_env 0) (relogio 1736683200000)
                      (exemplo_dashboard [sem_data, exemplo_ana] (- 1) [] [])) \<and>
   displayed (iso_env 0) (relogio 1736683200000)
     (exemplo_dashboard [sem_data, exemplo_ana] (- 1) [] []) = [exemplo_ana]"
proof -
  let ?s = "exemplo_dashboard [sem_data, exemplo_ana] (- 1) [] []"
  have none: "composed (iso_env 0) sem_data = None" by code_simp
  have d: "displayed (iso_env 0) (relogio 1736683200000) ?s = [exemplo_ana]" by code_simp
  from unparseable_filtered_out [of "iso_env 0" sem_data "relogio 1736683200000" ?s] none
  have "sem_data \<notin> set (displayed (iso_env 0) (relogio 1736683200000) ?s)" by simp
  then show ?thesis using none d by simp
qed

text \<open>
  C7. The effect does not change the source list: \<^verbatim>\<open>agendamentos\<close> keeps its reference,
  every array that was in the heap keeps its contents, so the source list holds the same
  records in the same order, and the list on display is a rearrangement of a subsequence
  of the source list.
\<close>

theorem source_list_unchanged:
  assumes "agendamentos s < length (heap s)"
  shows "agendamentos (filterEffect E clk s) = agendamentos s \<and>
         take (length (heap s)) (heap (filterEffect E clk s)) = heap s \<and>
         deref (filterEffect E clk s) (agendamentos s) = deref s (agendamentos s) \<and>
         (\<exists>ys. subseq ys (deref s (agendamentos s)) \<and> mset (displayed E clk s) = mset ys)"
proof -
  have "subseq (kept E clk s) (deref s (agendamentos s)) \<and>
        mset (displayed E clk s) = mset (kept E clk s)"
    by (simp add: kept_subseq displayed_kept mset_sort_by)
  then have "\<exists>ys. subseq ys (deref s (agendamentos s)) \<and> mset (displayed E clk s) = mset ys"
    by blast
  moreover have "agendamentos (filterEffect E clk s) = agendamentos s"
    by (simp add: filterEffect_def split: prod.splits)
  moreover have "take (length (heap s)) (heap (filterEffect E clk s)) = heap s"
    by (simp add: filterEffect_def array_filter_def array_sort_def split: prod.splits)
  moreover have "deref (filterEffect E clk s) (agendamentos s) = deref s (agendamentos s)"
    using assms
    by (simp add: deref_def filterEffect_def array_filter_def array_sort_def nth_append
        split: prod.splits)
  ultimately show ?thesis by blast
qed

theorem source_list_unchanged_witness:
  "agendamentos (exemplo_dashboard [exemplo_ana, exemplo_bea] (- 1) [] []) <
     length (heap (exemplo_dashboard [exemplo_ana, exemplo_bea] (- 1) [] [])) \<and>
   deref (filterEffect (iso_env 0) (relogio 1736683200000)
            (exemplo_dashboard [exemplo_ana, exemplo_bea] (- 1) [] [])) 0 =
     [exemplo_ana, exemplo_bea] \<and>
   displayed (iso_env 0) (relogio 1736683200000)
     (exemplo_dashboard [exemplo_ana, exemplo_bea] (- 1) [] []) = [exemplo_bea, exemplo_ana]"
proof -
  let ?s = "exemplo_dashboard [exemplo_ana, exemplo_bea] (- 1) [] []"
  have r: "agendamentos ?s = 0" by (simp add: exemplo_dashboard_def)
  have h: "agendamentos ?s < length (heap ?s)" by (simp add: exemplo_dashboard_def)
  have src: "deref ?s (agendamentos ?s) = [exemplo_ana, exemplo_bea]"
    by (simp add: exemplo_dashboard_def deref_def)
  have d: "displayed (iso_env 0) (relogio 1736683200000) ?s = [exemplo_bea, exemplo_ana]"
    by code_simp
  from source_list_unchanged [OF h, of "iso_env 0" "relogio 1736683200000"] r src
  have "deref (filterEffect (iso_env 0) (relogio 1736683200000) ?s) 0 =
          [exemplo_ana, exemplo_bea]"
    by simp
  then show ?thesis using h d by simp
qed

section \<open>The claims about the handlers\<close>

lemma new_effects_append: "log s' = log s @ es \<Longrightarrow> new_effects s s' = es"
  by (simp add: new_effects_def)

lemma fetchAgendamentos_401:
  assumes "\<not> no_token token" and "fetched = Resolved res" and "res_status res = 401"
  shows "fetchAgendamentos token fetched signedOut s =
           s\<lparr>loadingAgendamentos := False,
             log := log s @ [FetchAgendamentos (token_text token), SignOut] @
                    (case signedOut of
                       Resolved u \<Rightarrow> [ShowToast SessaoExpirada Error]
                     | Rejected \<Rightarrow> [ConsoleError, ShowToast ErroAoCarregar Error])\<rparr>"
  using assms
  by (cases signedOut)
    (simp_all add: fetchAgendamentos_def fetchAgendamentos_try_def ok_def emit_def Let_def)

text \<open>
  C8. When a request for the list was made (a token is present) and the response has
  status 401, the handler adds to the log exactly one request, exactly one sign-out and
  exactly one error notification, and leaves the list reference and the heap as they
  were, however the sign-out settles.
\<close>

theorem unauthorized_list_response:
  assumes "\<not> no_token token" and "fetched = Resolved res" and "res_status res = 401"
  shows "length (filter (\<lambda>e. e = SignOut)
                  (new_effects s (fetchAgendamentos token fetched signedOut s))) = 1 \<and>
         length (filter is_error_toast
                  (new_effects s (fetchAgendamentos token fetched signedOut s))) = 1 \<and>
         length (filter is_list_request
                  (new_effects s (fetchAgendamentos token fetched signedOut s))) = 1 \<and>
         agendamentos (fetchAgendamentos token fetched signedOut s) = agendamentos s \<and>
         heap (fetchAgendamentos token fetched signedOut s) = heap s"
proof -
  let ?s' = "fetchAgendamentos token fetched signedOut s"
  let ?tail = "case signedOut of
                 Resolved u \<Rightarrow> [ShowToast SessaoExpirada Error]
               | Rejected \<Rightarrow> [ConsoleError, ShowToast ErroAoCarregar Error]"
  have eq: "?s' = s\<lparr>loadingAgendamentos := False,
                    log := log s @ [FetchAgendamentos (token_text token), SignOut] @ ?tail\<rparr>"
    by (rule fetchAgendamentos_401 [OF assms])
  have new: "new_effects s ?s' = [FetchAgendamentos (token_text token), SignOut] @ ?tail"
    by (rule new_effects_append) (simp add: eq)
  have "length (filter (\<lambda>e. e = SignOut) (new_effects s ?s')) = 1"
    unfolding new by (cases signedOut) simp_all
  moreover have "length (filter is_error_toast (new_effects s ?s')) = 1"
    unfolding new by (cases signedOut) (simp_all add: is_error_toast_def)
  moreover have "length (filter is_list_request (new_effects s ?s')) = 1"
    unfolding new by (cases signedOut) (simp_all add: is_list_request_def)
  moreover have "agendamentos ?s' = agendamentos s" by (simp add: eq)
  moreover have "heap ?s' = heap s" by (simp add: eq)
  ultimately show ?thesis by blast
qed

theorem unauthorized_list_response_witness:
  "\<not> no_token (Some ''tk'') \<and>
   res_status (Response 401 (Resolved ListNull)) = 401 \<and>
   new_effects (exemplo_dashboard [exemplo_ana] 0 [] [])
     (fetchAgendamentos (Some ''tk'') (Resolved (Response 401 (Resolved ListNull))) (Resolved ())
        (exemplo_dashboard [exemplo_ana] 0 [] [])) =
     [FetchAgendamentos ''tk'', SignOut, ShowToast SessaoExpirada Error] \<and>
   length (filter (\<lambda>e. e = SignOut)
     (new_effects (exemplo_dashboard [exemplo_ana] 0 [] [])
        (fetchAgendamentos (Some ''tk'') (Resolved (Response 401 (Resolved ListNull)))
           (Resolved ()) (exemplo_dashboard [exemplo_ana] 0 [] [])))) = 1 \<and>
   length (filter is_error_toast
     (new_effects (exemplo_dashboard [exemplo_ana] 0 [] [])
        (fetchAgendamentos (Some ''tk'') (Resolved (Response 401 (Resolved ListNull)))
           (Resolved ()) (exemplo_dashboard [exemplo_ana] 0 [] [])))) = 1 \<and>
   length (filter is_list_request
     (new_effects (exemplo_dashboard [exemplo_ana] 0 [] [])
        (fetchAgendamentos (Some ''tk'') (Resolved (Response 401 (Resolved ListNull)))
           (Resolved ()) (exemplo_dashboard [exemplo_ana] 0 [] [])))) = 1"
proof -
  let ?s = "exemplo_dashboard [exemplo_ana] 0 [] []"
  let ?res = "Response 401 (Resolved ListNull)"
  have t: "\<not> no_token (Some ''tk'')" by (simp add: no_token_def truthy_def)
  have st: "res_status ?res = 401" by simp
  have new: "new_effects ?s (fetchAgendamentos (Some ''tk'') (Resolved ?res) (Resolved ()) ?s) =
               [FetchAgendamentos ''tk'', SignOut, ShowToast SessaoExpirada Error]"
    by code_simp
  from unauthorized_list_response [OF t refl st, where signedOut = "Resolved ()" and s = ?s]
    t st new
  show ?thesis by simp
qed

lemma submit_without_token:
  assumes "no_token token"
  shows "handleAgendamentoSubmit token entries posted reset fetched signedOut s =
           s\<lparr>log := log s @ [PreventDefault]\<rparr>"
  using assms by (simp add: handleAgendamentoSubmit_def handleAgendamentoSubmit_begin_def emit_def)

lemma submit_invalid:
  assumes "\<not> no_token token"
    and "falsy_field entries ''nome'' \<or> falsy_field entries ''telefone'' \<or>
         falsy_field entries ''data'' \<or> falsy_field entries ''horario''"
  shows "handleAgendamentoSubmit token entries posted reset fetched signedOut s =
           s\<lparr>log := log s @ [PreventDefault, ShowToast PreenchaCampos Warning]\<rparr>"
  using assms by (simp add: handleAgendamentoSubmit_def handleAgendamentoSubmit_begin_def emit_def)

text \<open>
  C9, as the code has it. The handler issues a create request only when name, phone,
  date and time are all non-empty. When a token is present and one of them is empty, it
  surfaces the warning and does nothing else: no request, and the state is as before but
  for the log. (Without a token the handler returns before it looks at the fields.)
\<close>

theorem create_validation:
  "(PostAgendar tk body \<in>
      set (new_effects s (handleAgendamentoSubmit token entries posted reset fetched signedOut s))
    \<longrightarrow> \<not> falsy_field entries ''nome'' \<and> \<not> falsy_field entries ''telefone'' \<and>
        \<not> falsy_field entries ''data'' \<and> \<not> falsy_field entries ''horario'') \<and>
   (\<not> no_token token \<and>
    (falsy_field entries ''nome'' \<or> falsy_field entries ''telefone'' \<or>
     falsy_field entries ''data'' \<or> falsy_field entries ''horario'')
    \<longrightarrow> handleAgendamentoSubmit token entries posted reset fetched signedOut s =
          s\<lparr>log := log s @ [PreventDefault, ShowToast PreenchaCampos Warning]\<rparr>)"
proof (intro conjI impI)
  let ?s' = "handleAgendamentoSubmit token entries posted reset fetched signedOut s"
  let ?bad = "falsy_field entries ''nome'' \<or> falsy_field entries ''telefone'' \<or>
     falsy_field entries ''data'' \<or> falsy_field entries ''horario''"
  assume req: "PostAgendar tk body \<in> set (new_effects s ?s')"
  have "\<not> ?bad"
  proof
    assume bad: ?bad
    show False
    proof (cases "no_token token")
      case True
      have "new_effects s ?s' = [PreventDefault]"
        by (rule new_effects_append) (simp add: submit_without_token [OF True])
      then show False using req by simp
    next
      case False
      have "new_effects s ?s' = [PreventDefault, ShowToast PreenchaCampos Warning]"
        by (rule new_effects_append) (simp add: submit_invalid [OF False bad])
      then show False using req by simp
    qed
  qed
  then show "\<not> falsy_field entries ''nome''" "\<not> falsy_field entries ''telefone''"
    "\<not> falsy_field entries ''data''" "\<not> falsy_field entries ''horario''"
    by simp_all
next
  assume "\<not> no_token token \<and>
    (falsy_field entries ''nome'' \<or> falsy_field entries ''telefone'' \<or>
     falsy_field entries ''data'' \<or> falsy_field entries ''horario'')"
  then show "handleAgendamentoSubmit token entries posted reset fetched signedOut s =
          s\<lparr>log := log s @ [PreventDefault, ShowToast PreenchaCampos Warning]\<rparr>"
    using submit_invalid by blast
qed

text \<open>With a token and an empty name: the warning, no request, the state as before.\<close>

theorem create_validation_witness:
  "\<not> no_token (Some ''tk'') \<and> falsy_field form_sem_nome ''nome'' \<and>
   handleAgendamentoSubmit (Some ''tk'') form_sem_nome
     (Resolved (Response 200 (Resolved MsgNull))) (Resolved ())
     (Resolved (Response 200 (Resolved ListNull))) (Resolved ())
     (exemplo_dashboard [exemplo_ana] 0 [] []) =
   (exemplo_dashboard [exemplo_ana] 0 [] [])
     \<lparr>log := [PreventDefault, ShowToast PreenchaCampos Warning]\<rparr>"
proof -
  let ?s = "exemplo_dashboard [exemplo_ana] 0 [] []"
  have t: "\<not> no_token (Some ''tk'')" by (simp add: no_token_def truthy_def)
  have f: "falsy_field form_sem_nome ''nome''" by code_simp
  have l: "log ?s = []" by (simp add: exemplo_dashboard_def)
  from create_validation [where s = ?s and token = "Some ''tk''" and entries = form_sem_nome
      and posted = "Resolved (Response 200 (Resolved MsgNull))" and reset = "Resolved ()"
      and fetched = "Resolved (Response 200 (Resolved ListNull))" and signedOut = "Resolved ()"]
    t f l
  show ?thesis by simp
qed

text \<open>
  The claim as stated fails when the handler runs without a token: the name is empty,
  and no warning is surfaced.
\<close>

theorem create_validation_counterexample:
  "falsy_field form_sem_nome ''nome'' \<and>
   filter is_warning_toast
     (new_effects (exemplo_dashboard [exemplo_ana] 0 [] [])
        (handleAgendamentoSubmit None form_sem_nome
           (Resolved (Response 200 (Resolved MsgNull))) (Resolved ())
           (Resolved (Response 200 (Resolved ListNull))) (Resolved ())
           (exemplo_dashboard [exemplo_ana] 0 [] []))) = []"
proof (rule conjI)
  show "falsy_field form_sem_nome ''nome''" by code_simp
  show "filter is_warning_toast
     (new_effects (exemplo_dashboard [exemplo_ana] 0 [] [])
        (handleAgendamentoSubmit None form_sem_nome
           (Resolved (Response 200 (Resolved MsgNull))) (Resolved ())
           (Resolved (Response 200 (Resolved ListNull))) (Resolved ())
           (exemplo_dashboard [exemplo_ana] 0 [] []))) = []"
    by code_simp
qed

subsection \<open>Controls and requests in flight\<close>

lemma card_inv_init: "card_inv card_init"
  by (simp add: card_inv_def card_init_def)

lemma card_inv_finally:
  assumes "length (running c) \<le> 1" and "i < length (running c)"
  shows "card_inv (card_finally i c)"
  using assms by (simp add: card_inv_def card_finally_def)

lemma card_inv_step:
  assumes "card_inv c"
  shows "card_inv (card_step token ident c ev)"
proof (cases ev)
  case (Click newStatus)
  show ?thesis
  proof (cases "isSubmitting c")
    case True
    then show ?thesis using assms Click by (simp add: Button_disabled_def)
  next
    case False
    then have "running c = []" using assms by (simp add: card_inv_def)
    then show ?thesis
      using assms Click False
      by (simp add: Button_disabled_def handleStatusChange_begin_def card_inv_def card_emit_def
          Let_def)
  qed
next
  case (GetUserSettles i got)
  show ?thesis
  proof (cases "i < length (running c)")
    case False
    then show ?thesis using assms GetUserSettles by simp
  next
    case True
    have len: "length (running c) \<le> 1" using assms by (simp add: card_inv_def)
    have sub: "isSubmitting c" using assms True by (auto simp: card_inv_def)
    show ?thesis
    proof (cases "running c ! i")
      case (AwaitingResponse st)
      then show ?thesis using assms GetUserSettles True by simp
    next
      case (AwaitingUser st tk)
      have fin: "card_inv (card_finally i (card_emit e c))" for e
        by (rule card_inv_finally) (use len True in \<open>simp_all add: card_emit_def\<close>)
      have "card_inv (handleStatusChange_user ident i st tk got c)"
      proof (cases got)
        case Rejected
        then show ?thesis using fin by (simp add: handleStatusChange_user_def)
      next
        case (Resolved u)
        show ?thesis
        proof (cases u)
          case None
          then show ?thesis using Resolved fin by (simp add: handleStatusChange_user_def)
        next
          case (Some em)
          then show ?thesis
            using Resolved len sub
            by (simp add: handleStatusChange_user_def card_inv_def card_emit_def Let_def)
        qed
      qed
      then show ?thesis using GetUserSettles True AwaitingUser by simp
    qed
  qed
next
  case (FetchSettles i fetched)
  show ?thesis
  proof (cases "i < length (running c)")
    case False
    then show ?thesis using assms FetchSettles by simp
  next
    case True
    have len: "length (running c) \<le> 1" using assms by (simp add: card_inv_def)
    show ?thesis
    proof (cases "running c ! i")
      case (AwaitingUser st tk)
      then show ?thesis using assms FetchSettles True by simp
    next
      case (AwaitingResponse st)
      have "running (handleStatusChange_try st fetched c) = running c"
        by (simp add: handleStatusChange_try_def card_emit_def
            split: outcome.splits msg_body.splits option.splits)
      then have "card_inv (card_finally i (handleStatusChange_try st fetched c))"
        by (intro card_inv_finally) (use len True in simp_all)
      then have "card_inv (handleStatusChange_response i st fetched c)"
        by (simp add: handleStatusChange_response_def)
      then show ?thesis using FetchSettles True AwaitingResponse by simp
    qed
  qed
qed

lemma card_inv_foldl: "card_inv c \<Longrightarrow> card_inv (foldl (card_step token ident) c evs)"
  by (induction evs arbitrary: c) (simp_all add: card_inv_step)

text \<open>
  Confirm and cancel: whatever happened to the card, while a call of
  \<^verbatim>\<open>handleStatusChange\<close> waits, both buttons are disabled and a click changes nothing; so
  at most one request of the card is in flight.
\<close>

lemma card_disabled_while_running:
  assumes "running (card_run token ident evs) \<noteq> []"
  shows "Button_disabled (Some (isSubmitting (card_run token ident evs))) \<and>
         card_step token ident (card_run token ident evs) (Click newStatus) =
           card_run token ident evs \<and>
         length (running (card_run token ident evs)) = 1"
proof -
  have "card_inv (card_run token ident evs)"
    unfolding card_run_def by (rule card_inv_foldl [OF card_inv_init])
  then show ?thesis
    using assms by (cases "running (card_run token ident evs)") (auto simp: card_inv_def Button_disabled_def)
qed

text \<open>
  C10 fails for the create form. Its submit button is never disabled, and
  \<^verbatim>\<open>handleAgendamentoSubmit\<close> keeps no flag: two submissions of a valid form, the second
  while the first request is in flight, issue two create requests.
\<close>

theorem create_double_submit:
  "\<not> Button_disabled None \<and>
   snd (create_run (Some ''tk'') (exemplo_dashboard [] 0 [] [], 0)
          [Submit exemplo_form, Submit exemplo_form]) = 2 \<and>
   filter is_create_request
     (log (fst (create_run (Some ''tk'') (exemplo_dashboard [] 0 [] [], 0)
                  [Submit exemplo_form, Submit exemplo_form]))) =
     [PostAgendar ''tk'' exemplo_form, PostAgendar ''tk'' exemplo_form]"
proof (intro conjI)
  show "\<not> Button_disabled None" by (simp add: Button_disabled_def)
  show "snd (create_run (Some ''tk'') (exemplo_dashboard [] 0 [] [], 0)
          [Submit exemplo_form, Submit exemplo_form]) = 2"
    by code_simp
  show "filter is_create_request
     (log (fst (create_run (Some ''tk'') (exemplo_dashboard [] 0 [] [], 0)
                  [Submit exemplo_form, Submit exemplo_form]))) =
     [PostAgendar ''tk'' exemplo_form, PostAgendar ''tk'' exemplo_form]"
    by code_simp
qed

end
